theory Spec2Isabelle
  imports Main
begin

section \<open>Data model of the chat store\<close>

text \<open>
  The type declarations of the store (\<^verbatim>\<open>Message\<close>, \<^verbatim>\<open>ToolUsage\<close>, \<^verbatim>\<open>StreamChunk\<close>,
  \<^verbatim>\<open>ChatStoreState\<close>) are imported by the handlers from \<^verbatim>\<open>./types\<close>; the records below
  carry the fields the handlers read and write. An optional field is an \<open>option\<close>;
  \<open>None\<close> is JavaScript's \<^verbatim>\<open>undefined\<close> (or \<^verbatim>\<open>null\<close> for \<^verbatim>\<open>streamingMessageId\<close>).
  Counts, indices and times are natural numbers.
\<close>

datatype role = User | Assistant

datatype tool_status =
  Streaming | Queued | Awaiting_approval | Executing | Awaiting_apply | Success | Error

text \<open>A tool result is a \<^verbatim>\<open>Record<string, unknown>\<close>; the handlers only test its
  \<^verbatim>\<open>cancelled\<close> and \<^verbatim>\<open>rejected\<close> entries for truthiness.\<close>

record tool_result =
  tr_cancelled :: bool
  tr_rejected :: bool
  tr_payload :: string

record tool =
  t_id :: string
  t_name :: string
  t_args :: string
  t_status :: tool_status
  t_result :: "tool_result option"

record function_call =
  fc_name :: string
  fc_args :: string
  fc_id :: "string option"

record function_response =
  fr_name :: string
  fr_response :: tool_result
  fr_id :: "string option"

record part =
  p_text :: "string option"
  p_thought :: bool
  p_functionCall :: "function_call option"
  p_functionResponse :: "function_response option"

record usage =
  u_thoughtsTokenCount :: "nat option"
  u_candidatesTokenCount :: "nat option"
  u_totalTokenCount :: "nat option"

record metadata =
  md_modelVersion :: "string option"
  md_thinkingStartTime :: "nat option"
  md_thinkingDuration :: "nat option"
  md_responseDuration :: "nat option"
  md_streamDuration :: "nat option"
  md_firstChunkTime :: "nat option"
  md_chunkCount :: "nat option"
  md_usageMetadata :: "usage option"
  md_thoughtsTokenCount :: "nat option"
  md_candidatesTokenCount :: "nat option"

record message =
  m_id :: string
  m_role :: role
  m_content :: string
  m_timestamp :: nat
  m_parts :: "part list option"
  m_tools :: "tool list option"
  m_metadata :: "metadata option"
  m_streaming :: "bool option"
  m_localOnly :: "bool option"
  m_isFunctionResponse :: "bool option"

record checkpoint =
  cp_id :: string
  cp_timestamp :: nat
  cp_toolName :: string
  cp_messageIndex :: nat

record stream_error =
  se_code :: string
  se_message :: string

text \<open>The backend payloads: \<^verbatim>\<open>Content\<close> (a finalized model message with its timing
  fields), the incremental \<^verbatim>\<open>BackendStreamChunk\<close>, and the \<^verbatim>\<open>StreamChunk\<close> event with
  its optional fields.\<close>

record content =
  ct_parts :: "part list"
  ct_thinkingDuration :: "nat option"
  ct_responseDuration :: "nat option"
  ct_streamDuration :: "nat option"
  ct_firstChunkTime :: "nat option"
  ct_chunkCount :: "nat option"

record backend_chunk =
  bc_delta :: "part list option"
  bc_done :: bool
  bc_usage :: "usage option"
  bc_thinkingStartTime :: "nat option"

record tool_update =
  tu_id :: string
  tu_status :: tool_status
  tu_result :: "tool_result option"

record pending_call =
  pc_id :: string

record tool_result_entry =
  r_id :: "string option"
  r_name :: string
  r_result :: tool_result

record stream_chunk =
  sc_chunk :: "backend_chunk option"
  sc_content :: "content option"
  sc_toolStatus :: "bool option"
  sc_tool :: "tool_update option"
  sc_pendingToolCalls :: "pending_call list option"
  sc_toolResults :: "tool_result_entry list option"
  sc_checkpoints :: "checkpoint list option"
  sc_error :: "stream_error option"

text \<open>The store. It is polymorphic in what \<open>allMessages\<close> holds: message values in the
  handlers below, object references in the model of the message objects.\<close>

record 'm chat_state =
  allMessages :: "'m list"
  windowStartIndex :: nat
  totalMessages :: nat
  streamingMessageId :: "string option"
  isStreaming :: bool
  isWaitingForResponse :: bool
  checkpoints :: "checkpoint list"
  historyFolded :: bool
  foldedMessageCount :: nat
  error :: "stream_error option"

section \<open>Window manager\<close>

definition MAX_WINDOW_MESSAGES :: nat where
  "MAX_WINDOW_MESSAGES = 800"

definition syncTotalMessagesFromWindow :: "'m chat_state \<Rightarrow> 'm chat_state" where
  "syncTotalMessagesFromWindow state =
     state\<lparr>totalMessages :=
       max (totalMessages state) (windowStartIndex state + length (allMessages state))\<rparr>"

definition setTotalMessagesFromWindow :: "'m chat_state \<Rightarrow> 'm chat_state" where
  "setTotalMessagesFromWindow state =
     state\<lparr>totalMessages :=
       max 0 (windowStartIndex state + length (allMessages state))\<rparr>"

text \<open>\<^verbatim>\<open>trimWindowFromTop(state, maxCount)\<close> returns the number of dropped messages and
  updates the store; the pair is (return value, new store). \<^verbatim>\<open>maxCount\<close> is a message
  count. The call of \<^verbatim>\<open>perfLog\<close> only writes to the console.\<close>

definition trimWindowFromTop :: "'m chat_state \<Rightarrow> nat \<Rightarrow> nat \<times> 'm chat_state" where
  "trimWindowFromTop state maxCount =
     (let all = allMessages state in
      if length all \<le> maxCount then (0, state)
      else
        let overflow = length all - maxCount;
            s1 = state\<lparr>allMessages := drop overflow all\<rparr>;
            s2 = s1\<lparr>windowStartIndex := windowStartIndex s1 + overflow\<rparr>;
            s3 = s2\<lparr>checkpoints :=
                   filter (\<lambda>cp. cp_messageIndex cp \<ge> windowStartIndex s2) (checkpoints s2)\<rparr>;
            s4 = s3\<lparr>historyFolded := True\<rparr>;
            s5 = s4\<lparr>foldedMessageCount := foldedMessageCount s4 + overflow\<rparr>
        in (overflow, syncTotalMessagesFromWindow s5))"

section \<open>JavaScript helpers\<close>

text \<open>Truthiness of an optional string: \<^verbatim>\<open>undefined\<close>, \<^verbatim>\<open>null\<close> and the empty string are
  falsy.\<close>

definition truthy :: "string option \<Rightarrow> bool" where
  "truthy x = (case x of None \<Rightarrow> False | Some v \<Rightarrow> v \<noteq> [])"

text \<open>\<^verbatim>\<open>Array.prototype.findIndex\<close>; \<open>None\<close> is the result \<^verbatim>\<open>-1\<close>.\<close>

fun findIndex :: "('a \<Rightarrow> bool) \<Rightarrow> 'a list \<Rightarrow> nat option" where
  "findIndex P [] = None"
| "findIndex P (x # xs) = (if P x then Some 0 else map_option Suc (findIndex P xs))"

text \<open>The backward scan \<^verbatim>\<open>for (let i = all.length - 1; i >= 0; i--)\<close> that stops at the
  first hit: the greatest index whose element satisfies the test.\<close>

fun findLastIndex :: "('a \<Rightarrow> bool) \<Rightarrow> 'a list \<Rightarrow> nat option" where
  "findLastIndex P [] = None"
| "findLastIndex P (x # xs) =
     (case findLastIndex P xs of
        Some j \<Rightarrow> Some (Suc j)
      | None \<Rightarrow> if P x then Some 0 else None)"

text \<open>\<^verbatim>\<open>[...all.slice(0, i), x, ...all.slice(i + 1)]\<close>\<close>

definition replaceAt :: "nat \<Rightarrow> 'a \<Rightarrow> 'a list \<Rightarrow> 'a list" where
  "replaceAt i x all = take i all @ [x] @ drop (i + 1) all"

text \<open>\<^verbatim>\<open>all.filter((_, i) => i !== messageIndex)\<close>\<close>

definition removeAt :: "nat \<Rightarrow> 'a list \<Rightarrow> 'a list" where
  "removeAt i all = map snd (filter (\<lambda>(j, _). j \<noteq> i) (zip [0..<length all] all))"

text \<open>A JavaScript \<^verbatim>\<open>Map\<close> keeps its keys in insertion order; \<^verbatim>\<open>set\<close> on a key that is
  present overwrites the value where it stands.\<close>

fun jsmap_has :: "('k \<times> 'v) list \<Rightarrow> 'k \<Rightarrow> bool" where
  "jsmap_has [] k = False"
| "jsmap_has ((k', v) # kvs) k = (k' = k \<or> jsmap_has kvs k)"

fun jsmap_set :: "('k \<times> 'v) list \<Rightarrow> 'k \<Rightarrow> 'v \<Rightarrow> ('k \<times> 'v) list" where
  "jsmap_set [] k v = [(k, v)]"
| "jsmap_set ((k', v') # kvs) k v =
     (if k' = k then (k, v) # kvs else (k', v') # jsmap_set kvs k v)"

section \<open>Collaborators of the handlers\<close>

text \<open>
  The message builder and the stream-parser helpers are imported from \<^verbatim>\<open>./parsers\<close> and
  \<^verbatim>\<open>./streamHelpers\<close>; they are parameters of the model. The builder receives
  \<^verbatim>\<open>chunk.content\<close> as it is, also when it is \<^verbatim>\<open>undefined\<close>. The helpers of the stream
  parser return nothing and work on the message object they are handed, so each is a
  function from the message to the message it leaves behind (two of them are handed the
  store as well; by their contract, ``mutating message.tools/parts as needed'', they
  change the message). \<^verbatim>\<open>generateId()\<close> and \<^verbatim>\<open>Date.now()\<close> give a new value on each
  call, so a handler takes the values of its calls as arguments.
\<close>

record collaborators =
  contentToMessage :: "content option \<Rightarrow> string \<Rightarrow> message"
  addTextToMessage :: "message \<Rightarrow> string \<Rightarrow> bool \<Rightarrow> message"
  processStreamingText :: "message \<Rightarrow> string \<Rightarrow> message"
  flushToolCallBuffer :: "message \<Rightarrow> message"
  handleFunctionCallPart :: "part \<Rightarrow> message \<Rightarrow> message"
  currentModelName :: string

text \<open>Modelled from the spec: \<^verbatim>\<open>addCheckpoint\<close>, the injected callback, is not part of the
  handlers' file; a checkpoints event ``just appends each to the checkpoint list''.\<close>

definition addCheckpoint :: "checkpoint \<Rightarrow> 'm chat_state \<Rightarrow> 'm chat_state" where
  "addCheckpoint cp state = state\<lparr>checkpoints := checkpoints state @ [cp]\<rparr>"

text \<open>\<^verbatim>\<open>if (chunk.checkpoints && chunk.checkpoints.length > 0) for (const cp of ...) addCheckpoint(cp)\<close>\<close>

definition addCheckpoints :: "stream_chunk \<Rightarrow> 'm chat_state \<Rightarrow> 'm chat_state" where
  "addCheckpoints chunk state =
     (case sc_checkpoints chunk of
        None \<Rightarrow> state
      | Some cps \<Rightarrow> foldl (\<lambda>s cp. addCheckpoint cp s) state cps)"

text \<open>Object spread \<^verbatim>\<open>{ ...message, ...finalMessage }\<close>: every key of the built message
  overrides the old one. The built message has the mandatory keys of a \<^verbatim>\<open>Message\<close>; an
  optional key that it lacks keeps the old message's value.\<close>

definition spreadMessage :: "message \<Rightarrow> message \<Rightarrow> message" where
  "spreadMessage message finalMessage =
     \<lparr> m_id = m_id finalMessage,
       m_role = m_role finalMessage,
       m_content = m_content finalMessage,
       m_timestamp = m_timestamp finalMessage,
       m_parts = (case m_parts finalMessage of None \<Rightarrow> m_parts message | Some v \<Rightarrow> Some v),
       m_tools = (case m_tools finalMessage of None \<Rightarrow> m_tools message | Some v \<Rightarrow> Some v),
       m_metadata =
         (case m_metadata finalMessage of None \<Rightarrow> m_metadata message | Some v \<Rightarrow> Some v),
       m_streaming =
         (case m_streaming finalMessage of None \<Rightarrow> m_streaming message | Some v \<Rightarrow> Some v),
       m_localOnly =
         (case m_localOnly finalMessage of None \<Rightarrow> m_localOnly message | Some v \<Rightarrow> Some v),
       m_isFunctionResponse =
         (case m_isFunctionResponse finalMessage of
            None \<Rightarrow> m_isFunctionResponse message | Some v \<Rightarrow> Some v) \<rparr>"

text \<open>\<^verbatim>\<open>message.metadata?.modelVersion\<close>\<close>

definition existingModelVersionOf :: "message \<Rightarrow> string option" where
  "existingModelVersionOf message =
     (case m_metadata message of None \<Rightarrow> None | Some md \<Rightarrow> md_modelVersion md)"

text \<open>\<^verbatim>\<open>if (existingModelVersion) md.modelVersion = existingModelVersion;
  delete md.thinkingStartTime\<close>\<close>

definition restoreMetadata :: "string option \<Rightarrow> metadata \<Rightarrow> metadata" where
  "restoreMetadata existingModelVersion md =
     (let md1 = (if truthy existingModelVersion
                 then md\<lparr>md_modelVersion := existingModelVersion\<rparr> else md)
      in md1\<lparr>md_thinkingStartTime := None\<rparr>)"

text \<open>The merge of the old tools with the rebuilt ones (the immediately invoked arrow
  function in \<^verbatim>\<open>handleToolsExecuting\<close> and \<^verbatim>\<open>handleAwaitingConfirmation\<close>).\<close>

definition mergeTools :: "tool list option \<Rightarrow> tool list option \<Rightarrow> tool list" where
  "mergeTools existingTools finalTools =
     (let a = (case existingTools of None \<Rightarrow> [] | Some ts \<Rightarrow> ts);
          b = (case finalTools of None \<Rightarrow> [] | Some ts \<Rightarrow> ts)
      in if length a = 0 then b
         else if length b = 0 then a
         else
           let m1 = foldl (\<lambda>m t. jsmap_set m (t_id t) t) [] a;
               m2 = foldl (\<lambda>m t. if \<not> jsmap_has m (t_id t) then jsmap_set m (t_id t) t else m) m1 b
           in map snd m2)"

text \<open>The rebuilt message of \<^verbatim>\<open>handleToolsExecuting\<close> and \<^verbatim>\<open>handleAwaitingConfirmation\<close>,
  before the tool statuses are assigned (the two handlers have the same text here).\<close>

definition rebuildMerged :: "collaborators \<Rightarrow> content \<Rightarrow> message \<Rightarrow> message" where
  "rebuildMerged col chunkContent message =
     (let existingModelVersion = existingModelVersionOf message;
          existingTools = m_tools message;
          finalMessage = contentToMessage col (Some chunkContent) (m_id message);
          mergedTools = mergeTools existingTools (m_tools finalMessage);
          updatedMessage = (spreadMessage message finalMessage)
            \<lparr> m_streaming := Some False,
              m_localOnly := Some False,
              m_tools := (if length mergedTools > 0 then Some mergedTools else None) \<rparr>
      in case m_metadata updatedMessage of
           None \<Rightarrow> updatedMessage
         | Some md \<Rightarrow> updatedMessage\<lparr>m_metadata := Some (restoreMetadata existingModelVersion md)\<rparr>)"

section \<open>The chunk handlers\<close>

subsection \<open>\<^verbatim>\<open>handleChunkType\<close>\<close>

definition emptyMetadata :: metadata where
  "emptyMetadata =
     \<lparr> md_modelVersion = None, md_thinkingStartTime = None, md_thinkingDuration = None,
       md_responseDuration = None, md_streamDuration = None, md_firstChunkTime = None,
       md_chunkCount = None, md_usageMetadata = None, md_thoughtsTokenCount = None,
       md_candidatesTokenCount = None \<rparr>"

text \<open>The body of the loop over \<^verbatim>\<open>chunk.chunk.delta\<close>, applied to the message object.\<close>

definition applyDeltaPart :: "collaborators \<Rightarrow> message \<Rightarrow> part \<Rightarrow> message" where
  "applyDeltaPart col message part =
     (let m1 = (case p_text part of
                  None \<Rightarrow> message
                | Some text \<Rightarrow>
                    if text = [] then message
                    else if p_thought part then addTextToMessage col message text True
                    else processStreamingText col message text)
      in case p_functionCall part of
           None \<Rightarrow> m1
         | Some _ \<Rightarrow> handleFunctionCallPart col part m1)"

text \<open>Everything the handler writes into the message object it found.\<close>

definition chunkMutation ::
  "collaborators \<Rightarrow> backend_chunk \<Rightarrow> part list \<Rightarrow> message \<Rightarrow> message" where
  "chunkMutation col bc delta message =
     (let m1 = (case m_parts message of None \<Rightarrow> message\<lparr>m_parts := Some []\<rparr> | Some _ \<Rightarrow> message);
          m2 = foldl (applyDeltaPart col) m1 delta;
          md0 = (case m_metadata m2 of None \<Rightarrow> emptyMetadata | Some md \<Rightarrow> md);
          md1 = (case bc_thinkingStartTime bc of
                   None \<Rightarrow> md0
                 | Some t \<Rightarrow> if t \<noteq> 0 then md0\<lparr>md_thinkingStartTime := Some t\<rparr> else md0);
          md2 = (if bc_done bc
                 then (case bc_usage bc of
                         None \<Rightarrow> md1
                       | Some u \<Rightarrow>
                           md1\<lparr> md_usageMetadata := Some u,
                                md_thoughtsTokenCount := u_thoughtsTokenCount u,
                                md_candidatesTokenCount := u_candidatesTokenCount u \<rparr>)
                 else md1)
      in m2\<lparr>m_metadata := Some md2\<rparr>)"

definition handleChunkType ::
  "collaborators \<Rightarrow> stream_chunk \<Rightarrow> message chat_state \<Rightarrow> message chat_state" where
  "handleChunkType col chunk state =
     (case findIndex (\<lambda>m. Some (m_id m) = streamingMessageId state) (allMessages state) of
        None \<Rightarrow> state
      | Some i \<Rightarrow>
          (case sc_chunk chunk of
             None \<Rightarrow> state
           | Some bc \<Rightarrow>
               (case bc_delta bc of
                  None \<Rightarrow> state
                | Some delta \<Rightarrow>
                    state\<lparr>allMessages :=
                      (allMessages state)[i := chunkMutation col bc delta (allMessages state ! i)]\<rparr>)))"

subsection \<open>\<^verbatim>\<open>handleToolsExecuting\<close>\<close>

definition executingStatus :: "pending_call list \<Rightarrow> tool \<Rightarrow> tool" where
  "executingStatus pending tool =
     (let executingId = (case pending of [] \<Rightarrow> None | p # _ \<Rightarrow> Some (pc_id p));
          queuedIds = set (map pc_id (drop 1 pending));
          baseStatus = (if t_status tool = Streaming then Queued else t_status tool)
      in if truthy executingId \<and> Some (t_id tool) = executingId
         then tool\<lparr>t_status := Executing\<rparr>
         else if t_id tool \<in> queuedIds then tool\<lparr>t_status := Queued\<rparr>
         else tool\<lparr>t_status := baseStatus\<rparr>)"

definition executingMessage :: "collaborators \<Rightarrow> stream_chunk \<Rightarrow> content \<Rightarrow> message \<Rightarrow> message" where
  "executingMessage col chunk chunkContent message =
     (let updatedMessage = rebuildMerged col chunkContent message;
          pending = (case sc_pendingToolCalls chunk of None \<Rightarrow> [] | Some ps \<Rightarrow> ps)
      in case m_tools updatedMessage of
           None \<Rightarrow> updatedMessage
         | Some ts \<Rightarrow> updatedMessage\<lparr>m_tools := Some (map (executingStatus pending) ts)\<rparr>)"

definition executingReplace ::
  "collaborators \<Rightarrow> stream_chunk \<Rightarrow> message chat_state \<Rightarrow> message chat_state" where
  "executingReplace col chunk state =
     (case findIndex (\<lambda>m. Some (m_id m) = streamingMessageId state) (allMessages state) of
        None \<Rightarrow> state
      | Some messageIndex \<Rightarrow>
          (case sc_content chunk of
             None \<Rightarrow> state
           | Some chunkContent \<Rightarrow>
               let message = allMessages state ! messageIndex;
                   updatedMessage = executingMessage col chunk chunkContent message
               in state\<lparr>allMessages :=
                    replaceAt messageIndex updatedMessage (allMessages state)\<rparr>))"

definition handleToolsExecuting ::
  "collaborators \<Rightarrow> stream_chunk \<Rightarrow> message chat_state \<Rightarrow> message chat_state" where
  "handleToolsExecuting col chunk state =
     (let s1 = state\<lparr>isStreaming := True\<rparr>
      in executingReplace col chunk s1)"

subsection \<open>\<^verbatim>\<open>handleToolStatus\<close>\<close>

text \<open>\<^verbatim>\<open>m.role === 'assistant' && m.tools?.some(t => t.id === toolUpdate.id)\<close>\<close>

definition ownsTool :: "string \<Rightarrow> message \<Rightarrow> bool" where
  "ownsTool toolId m =
     (m_role m = Assistant \<and>
      (case m_tools m of None \<Rightarrow> False | Some ts \<Rightarrow> \<exists>t \<in> set ts. t_id t = toolId))"

text \<open>The two searches for the owning message: the streaming message first, then the
  backward scan.\<close>

definition toolStatusTarget :: "string \<Rightarrow> string option \<Rightarrow> message list \<Rightarrow> nat option" where
  "toolStatusTarget toolId sid all =
     (let first =
        (if truthy sid
         then (case findIndex (\<lambda>m. Some (m_id m) = sid) all of
                 None \<Rightarrow> None
               | Some idx \<Rightarrow> if ownsTool toolId (all ! idx) then Some idx else None)
         else None)
      in case first of
           Some i \<Rightarrow> Some i
         | None \<Rightarrow> findLastIndex (ownsTool toolId) all)"

definition toolStatusEntry :: "tool_update \<Rightarrow> tool \<Rightarrow> tool" where
  "toolStatusEntry toolUpdate t =
     (if t_id t \<noteq> tu_id toolUpdate then t
      else t\<lparr> t_status := tu_status toolUpdate,
              t_result := (case tu_result toolUpdate of None \<Rightarrow> t_result t | Some r \<Rightarrow> Some r) \<rparr>)"

definition toolStatusMessage :: "tool_update \<Rightarrow> message \<Rightarrow> message" where
  "toolStatusMessage toolUpdate message =
     message\<lparr>m_tools := map_option (map (toolStatusEntry toolUpdate)) (m_tools message)\<rparr>"

definition handleToolStatus :: "stream_chunk \<Rightarrow> message chat_state \<Rightarrow> message chat_state" where
  "handleToolStatus chunk state =
     (if sc_toolStatus chunk \<noteq> Some True then state
      else case sc_tool chunk of
        None \<Rightarrow> state
      | Some toolUpdate \<Rightarrow>
          let all = allMessages state in
          (case toolStatusTarget (tu_id toolUpdate) (streamingMessageId state) all of
             None \<Rightarrow> state
           | Some messageIndex \<Rightarrow>
               let message = all ! messageIndex;
                   updatedMessage = toolStatusMessage toolUpdate message
               in state\<lparr>allMessages := replaceAt messageIndex updatedMessage all\<rparr>))"

subsection \<open>Hidden function-response messages\<close>

text \<open>The set \<^verbatim>\<open>existingResponseIds\<close>, as the list of the ids in scan order: the ids of
  the \<^verbatim>\<open>functionResponse\<close> parts of the messages flagged \<^verbatim>\<open>isFunctionResponse\<close>.\<close>

definition partResponseIds :: "part \<Rightarrow> string list" where
  "partResponseIds p =
     (case p_functionResponse p of
        None \<Rightarrow> []
      | Some fr \<Rightarrow> (case fr_id fr of None \<Rightarrow> [] | Some i \<Rightarrow> if i \<noteq> [] then [i] else []))"

definition messageResponseIds :: "message \<Rightarrow> string list" where
  "messageResponseIds m =
     (if m_isFunctionResponse m = Some True
      then (case m_parts m of None \<Rightarrow> [] | Some ps \<Rightarrow> concat (map partResponseIds ps))
      else [])"

definition existingResponseIds :: "message list \<Rightarrow> string list" where
  "existingResponseIds all = concat (map messageResponseIds all)"

definition responsePart :: "tool_result_entry \<Rightarrow> part" where
  "responsePart r =
     \<lparr> p_text = None, p_thought = False, p_functionCall = None,
       p_functionResponse =
         Some \<lparr> fr_name = r_name r, fr_response = r_result r, fr_id = r_id r \<rparr> \<rparr>"

text \<open>\<^verbatim>\<open>toolResults.filter(r => r.id && !existingResponseIds.has(r.id)).map(...)\<close>\<close>

definition newResponseParts :: "string list \<Rightarrow> tool_result_entry list \<Rightarrow> part list" where
  "newResponseParts existing toolResults =
     map responsePart
       (filter (\<lambda>r. case r_id r of None \<Rightarrow> False | Some i \<Rightarrow> i \<noteq> [] \<and> i \<notin> set existing)
          toolResults)"

definition responseMessage :: "string \<Rightarrow> nat \<Rightarrow> part list \<Rightarrow> message" where
  "responseMessage newId now newParts =
     \<lparr> m_id = newId, m_role = User, m_content = [], m_timestamp = now,
       m_parts = Some newParts, m_tools = None, m_metadata = None, m_streaming = None,
       m_localOnly = None, m_isFunctionResponse = Some True \<rparr>"

text \<open>The block \<^verbatim>\<open>if (chunk.toolResults && chunk.toolResults.length > 0) { ... }\<close>, which
  \<^verbatim>\<open>handleAwaitingConfirmation\<close> and \<^verbatim>\<open>handleToolIteration\<close> both have. \<open>newId\<close> and
  \<open>now\<close> are the values of \<^verbatim>\<open>generateId()\<close> and \<^verbatim>\<open>Date.now()\<close>.\<close>

definition appendFunctionResponses ::
  "string \<Rightarrow> nat \<Rightarrow> stream_chunk \<Rightarrow> message chat_state \<Rightarrow> message chat_state" where
  "appendFunctionResponses newId now chunk state =
     (case sc_toolResults chunk of
        None \<Rightarrow> state
      | Some toolResults \<Rightarrow>
          if length toolResults > 0
          then
            let existing = existingResponseIds (allMessages state);
                newParts = newResponseParts existing toolResults
            in if length newParts > 0
               then state\<lparr>allMessages := allMessages state @ [responseMessage newId now newParts]\<rparr>
               else state
          else state)"

subsection \<open>\<^verbatim>\<open>handleAwaitingConfirmation\<close>\<close>

text \<open>\<^verbatim>\<open>new Map(toolResults.map(r => [r.id, r]))\<close>: a later entry with the same id wins.\<close>

definition toolResultMap ::
  "tool_result_entry list \<Rightarrow> (string option \<times> tool_result_entry) list" where
  "toolResultMap toolResults = foldl (\<lambda>m r. jsmap_set m (r_id r) r) [] toolResults"

definition confirmationStatus ::
  "pending_call list \<Rightarrow> tool_result_entry list \<Rightarrow> tool \<Rightarrow> tool" where
  "confirmationStatus pending toolResults tool =
     (let pendingIds = set (map pc_id pending);
          baseStatus = (if t_status tool = Streaming then Queued else t_status tool)
      in if t_id tool \<in> pendingIds then tool\<lparr>t_status := Awaiting_approval\<rparr>
         else case map_of (toolResultMap toolResults) (Some (t_id tool)) of
                Some r \<Rightarrow>
                  let result = r_result r;
                      status = (if tr_cancelled result \<or> tr_rejected result then Error else Success)
                  in tool\<lparr>t_status := status, t_result := Some result\<rparr>
              | None \<Rightarrow> tool\<lparr>t_status := baseStatus\<rparr>)"

definition confirmationMessage ::
  "collaborators \<Rightarrow> stream_chunk \<Rightarrow> content \<Rightarrow> message \<Rightarrow> message" where
  "confirmationMessage col chunk chunkContent message =
     (let updatedMessage = rebuildMerged col chunkContent message;
          pending = (case sc_pendingToolCalls chunk of None \<Rightarrow> [] | Some ps \<Rightarrow> ps);
          toolResults = (case sc_toolResults chunk of None \<Rightarrow> [] | Some rs \<Rightarrow> rs)
      in case m_tools updatedMessage of
           None \<Rightarrow> updatedMessage
         | Some ts \<Rightarrow>
             updatedMessage\<lparr>m_tools := Some (map (confirmationStatus pending toolResults) ts)\<rparr>)"

text \<open>The first block of the handler: the streaming message is rebuilt and its slot
  replaced, when the message is found and the event carries content.\<close>

definition confirmationReplace ::
  "collaborators \<Rightarrow> stream_chunk \<Rightarrow> message chat_state \<Rightarrow> message chat_state" where
  "confirmationReplace col chunk state =
     (case findIndex (\<lambda>m. Some (m_id m) = streamingMessageId state) (allMessages state) of
        None \<Rightarrow> state
      | Some messageIndex \<Rightarrow>
          (case sc_content chunk of
             None \<Rightarrow> state
           | Some chunkContent \<Rightarrow>
               let message = allMessages state ! messageIndex;
                   updatedMessage = confirmationMessage col chunk chunkContent message
               in state\<lparr>allMessages :=
                    replaceAt messageIndex updatedMessage (allMessages state)\<rparr>))"

definition handleAwaitingConfirmation ::
  "collaborators \<Rightarrow> string \<Rightarrow> nat \<Rightarrow> stream_chunk \<Rightarrow> message chat_state \<Rightarrow> message chat_state"
  where
  "handleAwaitingConfirmation col responseId responseTime chunk state =
     (let s1 = confirmationReplace col chunk state;
          s2 = appendFunctionResponses responseId responseTime chunk s1;
          s3 = addCheckpoints chunk s2
      in s3\<lparr>isStreaming := False\<rparr>)"

subsection \<open>\<^verbatim>\<open>handleToolIteration\<close>\<close>

text \<open>The sets \<^verbatim>\<open>cancelledToolIds\<close> and \<^verbatim>\<open>rejectedToolIds\<close>, as lists.\<close>

definition cancelledToolIds :: "stream_chunk \<Rightarrow> string list" where
  "cancelledToolIds chunk =
     (case sc_toolResults chunk of
        None \<Rightarrow> []
      | Some rs \<Rightarrow>
          concat (map (\<lambda>r. case r_id r of
                             None \<Rightarrow> []
                           | Some i \<Rightarrow> if tr_cancelled (r_result r) \<and> i \<noteq> [] then [i] else []) rs))"

definition rejectedToolIds :: "stream_chunk \<Rightarrow> string list" where
  "rejectedToolIds chunk =
     (case sc_toolResults chunk of
        None \<Rightarrow> []
      | Some rs \<Rightarrow>
          concat (map (\<lambda>r. case r_id r of
                             None \<Rightarrow> []
                           | Some i \<Rightarrow> if tr_rejected (r_result r) \<and> i \<noteq> [] then [i] else []) rs))"

definition iterationMessage :: "collaborators \<Rightarrow> stream_chunk \<Rightarrow> message \<Rightarrow> message" where
  "iterationMessage col chunk message =
     (let existingTools = m_tools message;
          existingModelVersion = existingModelVersionOf message;
          built = contentToMessage col (sc_content chunk) (m_id message);
          finalMessage =
            (case m_metadata built of
               None \<Rightarrow> built
             | Some md \<Rightarrow> built\<lparr>m_metadata := Some (restoreMetadata existingModelVersion md)\<rparr>);
          restoredTools0 = m_tools finalMessage;
          restoredTools1 =
            (case existingTools of
               None \<Rightarrow> restoredTools0
             | Some _ \<Rightarrow>
                 (case restoredTools0 of
                    None \<Rightarrow> existingTools
                  | Some rts \<Rightarrow> if length rts = 0 then existingTools else restoredTools0));
          restoredTools =
            map_option
              (map (\<lambda>tool. tool\<lparr>t_status :=
                      (if t_id tool \<in> set (cancelledToolIds chunk) \<or>
                          t_id tool \<in> set (rejectedToolIds chunk)
                       then Error else Success)\<rparr>))
              restoredTools1
      in (spreadMessage message finalMessage)
           \<lparr> m_streaming := Some False, m_localOnly := Some False, m_tools := restoredTools \<rparr>)"

definition newAssistantMessage :: "collaborators \<Rightarrow> string \<Rightarrow> nat \<Rightarrow> message" where
  "newAssistantMessage col newId now =
     \<lparr> m_id = newId, m_role = Assistant, m_content = [], m_timestamp = now,
       m_parts = None, m_tools = None,
       m_metadata = Some (emptyMetadata\<lparr>md_modelVersion := Some (currentModelName col)\<rparr>),
       m_streaming = Some True, m_localOnly = Some True, m_isFunctionResponse = None \<rparr>"

definition iterationReplace ::
  "collaborators \<Rightarrow> stream_chunk \<Rightarrow> message chat_state \<Rightarrow> message chat_state" where
  "iterationReplace col chunk state =
     (case findIndex (\<lambda>m. Some (m_id m) = streamingMessageId state) (allMessages state) of
        None \<Rightarrow> state
      | Some messageIndex \<Rightarrow>
          let message = allMessages state ! messageIndex;
              updatedMessage = iterationMessage col chunk message
          in state\<lparr>allMessages := replaceAt messageIndex updatedMessage (allMessages state)\<rparr>)"

text \<open>\<open>responseId\<close>, \<open>responseTime\<close> and \<open>assistantId\<close>, \<open>assistantTime\<close> are the values
  of the two calls of \<^verbatim>\<open>generateId()\<close> and \<^verbatim>\<open>Date.now()\<close>. \<^verbatim>\<open>hasCancelledTools\<close> is
  computed before the message is replaced, from the event alone.\<close>

definition hasCancelledTools :: "stream_chunk \<Rightarrow> bool" where
  "hasCancelledTools chunk = (length (remdups (cancelledToolIds chunk)) > 0)"

definition handleToolIteration ::
  "collaborators \<Rightarrow> string \<Rightarrow> nat \<Rightarrow> string \<Rightarrow> nat \<Rightarrow> stream_chunk \<Rightarrow>
     message chat_state \<Rightarrow> message chat_state" where
  "handleToolIteration col responseId responseTime assistantId assistantTime chunk state =
     (let s1 = iterationReplace col chunk state;
          s2 = appendFunctionResponses responseId responseTime chunk s1;
          s3 = addCheckpoints chunk s2
      in if hasCancelledTools chunk
         then s3\<lparr> streamingMessageId := None, isStreaming := False,
                  isWaitingForResponse := False \<rparr>
         else s3\<lparr> allMessages := allMessages s3 @ [newAssistantMessage col assistantId assistantTime],
                  streamingMessageId := Some assistantId,
                  isStreaming := True,
                  isWaitingForResponse := True \<rparr>)"

subsection \<open>\<^verbatim>\<open>handleComplete\<close> and \<^verbatim>\<open>handleCheckpoints\<close>\<close>

text \<open>\<^verbatim>\<open>flushToolCallBuffer\<close> works on the message object before it is rebuilt. The
  callback \<^verbatim>\<open>updateConversationAfterMessage()\<close> is started and not awaited.\<close>

definition completeMessage :: "collaborators \<Rightarrow> stream_chunk \<Rightarrow> message \<Rightarrow> message" where
  "completeMessage col chunk message0 =
     (let message = flushToolCallBuffer col message0;
          existingModelVersion = existingModelVersionOf message;
          built = contentToMessage col (sc_content chunk) (m_id message);
          finalMessage =
            (case m_metadata built of
               None \<Rightarrow> built
             | Some md \<Rightarrow>
                 if truthy existingModelVersion
                 then built\<lparr>m_metadata := Some (md\<lparr>md_modelVersion := existingModelVersion\<rparr>)\<rparr>
                 else built)
      in (spreadMessage message finalMessage)
           \<lparr> m_streaming := Some False, m_localOnly := Some False \<rparr>)"

definition completeReplace ::
  "collaborators \<Rightarrow> stream_chunk \<Rightarrow> message chat_state \<Rightarrow> message chat_state" where
  "completeReplace col chunk state =
     (case findIndex (\<lambda>m. Some (m_id m) = streamingMessageId state) (allMessages state) of
        None \<Rightarrow> state
      | Some messageIndex \<Rightarrow>
          let message = allMessages state ! messageIndex;
              updatedMessage = completeMessage col chunk message
          in state\<lparr>allMessages := replaceAt messageIndex updatedMessage (allMessages state)\<rparr>)"

definition handleComplete ::
  "collaborators \<Rightarrow> stream_chunk \<Rightarrow> message chat_state \<Rightarrow> message chat_state" where
  "handleComplete col chunk state =
     (let s1 = completeReplace col chunk state;
          s2 = addCheckpoints chunk s1
      in s2\<lparr> streamingMessageId := None, isStreaming := False, isWaitingForResponse := False \<rparr>)"

definition handleCheckpoints :: "stream_chunk \<Rightarrow> 'm chat_state \<Rightarrow> 'm chat_state" where
  "handleCheckpoints chunk state = addCheckpoints chunk state"

subsection \<open>\<^verbatim>\<open>handleCancelled\<close> and \<^verbatim>\<open>handleError\<close>\<close>

text \<open>\<^verbatim>\<open>message.parts && message.parts.some(p => p.text || p.functionCall)\<close>\<close>

definition hasPartsContent :: "message \<Rightarrow> bool" where
  "hasPartsContent message =
     (case m_parts message of
        None \<Rightarrow> False
      | Some ps \<Rightarrow> \<exists>p \<in> set ps. truthy (p_text p) \<or> p_functionCall p \<noteq> None)"

text \<open>\<^verbatim>\<open>!message.content && !message.tools && !hasPartsContent\<close>: an array, also an empty
  one, is truthy.\<close>

definition isEmptyPlaceholder :: "message \<Rightarrow> bool" where
  "isEmptyPlaceholder message =
     (m_content message = [] \<and> m_tools message = None \<and> \<not> hasPartsContent message)"

definition cancelledTarget :: "string option \<Rightarrow> message list \<Rightarrow> nat option" where
  "cancelledTarget sid all =
     (if truthy sid then findIndex (\<lambda>m. Some (m_id m) = sid) all
      else case all of
             [] \<Rightarrow> None
           | _ # _ \<Rightarrow>
               let lastMsg = last all in
               if m_role lastMsg = Assistant \<and> m_streaming lastMsg \<noteq> Some True
               then Some (length all - 1) else None)"

definition cancelledStatus :: "tool \<Rightarrow> tool" where
  "cancelledStatus tool =
     (if t_status tool = Streaming \<or> t_status tool = Queued \<or>
         t_status tool = Awaiting_approval \<or> t_status tool = Executing \<or>
         t_status tool = Awaiting_apply
      then tool\<lparr>t_status := Error\<rparr> else tool)"

definition cancelledMetadata :: "stream_chunk \<Rightarrow> message \<Rightarrow> metadata" where
  "cancelledMetadata chunk message =
     (let md0 = (case m_metadata message of None \<Rightarrow> emptyMetadata | Some md \<Rightarrow> md) in
      case sc_content chunk of
        None \<Rightarrow> md0
      | Some c \<Rightarrow>
          let md1 = (case ct_thinkingDuration c of None \<Rightarrow> md0
                     | Some v \<Rightarrow> md0\<lparr>md_thinkingDuration := Some v\<rparr>);
              md2 = (case ct_responseDuration c of None \<Rightarrow> md1
                     | Some v \<Rightarrow> md1\<lparr>md_responseDuration := Some v\<rparr>);
              md3 = (case ct_streamDuration c of None \<Rightarrow> md2
                     | Some v \<Rightarrow> md2\<lparr>md_streamDuration := Some v\<rparr>);
              md4 = (case ct_firstChunkTime c of None \<Rightarrow> md3
                     | Some v \<Rightarrow> md3\<lparr>md_firstChunkTime := Some v\<rparr>)
          in (case ct_chunkCount c of None \<Rightarrow> md4
              | Some v \<Rightarrow> md4\<lparr>md_chunkCount := Some v\<rparr>))"

definition cancelledMessage :: "stream_chunk \<Rightarrow> message \<Rightarrow> message" where
  "cancelledMessage chunk message =
     message\<lparr> m_streaming := Some False,
              m_localOnly := Some False,
              m_metadata := Some (cancelledMetadata chunk message),
              m_tools := map_option (map cancelledStatus) (m_tools message) \<rparr>"

definition cancelledReplace :: "stream_chunk \<Rightarrow> message chat_state \<Rightarrow> message chat_state" where
  "cancelledReplace chunk state =
     (case cancelledTarget (streamingMessageId state) (allMessages state) of
        None \<Rightarrow> state
      | Some messageIndex \<Rightarrow>
          let message = allMessages state ! messageIndex in
          if isEmptyPlaceholder message
          then state\<lparr>allMessages := removeAt messageIndex (allMessages state)\<rparr>
          else state\<lparr>allMessages :=
                 replaceAt messageIndex (cancelledMessage chunk message) (allMessages state)\<rparr>)"

definition handleCancelled :: "stream_chunk \<Rightarrow> message chat_state \<Rightarrow> message chat_state" where
  "handleCancelled chunk state =
     (let s1 = cancelledReplace chunk state
      in s1\<lparr> streamingMessageId := None, isStreaming := False, isWaitingForResponse := False \<rparr>)"

definition defaultStreamError :: stream_error where
  "defaultStreamError = \<lparr> se_code = ''STREAM_ERROR'', se_message = ''Stream error'' \<rparr>"

definition handleError :: "stream_chunk \<Rightarrow> message chat_state \<Rightarrow> message chat_state" where
  "handleError chunk state =
     (let s1 = state\<lparr>error :=
                 Some (case sc_error chunk of Some e \<Rightarrow> e | None \<Rightarrow> defaultStreamError)\<rparr>;
          s2 =
            (if truthy (streamingMessageId s1)
             then
               let messageToRemove =
                     find (\<lambda>m. Some (m_id m) = streamingMessageId s1) (allMessages s1);
                   s1' =
                     (case messageToRemove of
                        None \<Rightarrow> s1
                      | Some m \<Rightarrow>
                          if isEmptyPlaceholder m
                          then s1\<lparr>allMessages :=
                                 filter (\<lambda>m. Some (m_id m) \<noteq> streamingMessageId s1) (allMessages s1)\<rparr>
                          else s1)
               in s1'\<lparr>streamingMessageId := None\<rparr>
             else s1)
      in s2\<lparr>isStreaming := False, isWaitingForResponse := False\<rparr>)"

section \<open>Sequences of operations\<close>

datatype event_kind =
  K_chunk | K_toolsExecuting | K_toolStatus | K_awaitingConfirmation | K_toolIteration |
  K_complete | K_checkpoints | K_cancelled | K_error

text \<open>The values that \<^verbatim>\<open>generateId()\<close> and \<^verbatim>\<open>Date.now()\<close> return while one event is
  handled.\<close>

record fresh_values =
  fv_responseId :: string
  fv_responseTime :: nat
  fv_assistantId :: string
  fv_assistantTime :: nat

text \<open>Modelled from the spec: the dispatcher that calls the handlers is not part of the
  handlers' file; ``events are tagged by kind; each kind has a dedicated handler''.\<close>

definition dispatch ::
  "collaborators \<Rightarrow> fresh_values \<Rightarrow> event_kind \<Rightarrow> stream_chunk \<Rightarrow>
     message chat_state \<Rightarrow> message chat_state" where
  "dispatch col fv kind chunk state =
     (case kind of
        K_chunk \<Rightarrow> handleChunkType col chunk state
      | K_toolsExecuting \<Rightarrow> handleToolsExecuting col chunk state
      | K_toolStatus \<Rightarrow> handleToolStatus chunk state
      | K_awaitingConfirmation \<Rightarrow>
          handleAwaitingConfirmation col (fv_responseId fv) (fv_responseTime fv) chunk state
      | K_toolIteration \<Rightarrow>
          handleToolIteration col (fv_responseId fv) (fv_responseTime fv)
            (fv_assistantId fv) (fv_assistantTime fv) chunk state
      | K_complete \<Rightarrow> handleComplete col chunk state
      | K_checkpoints \<Rightarrow> handleCheckpoints chunk state
      | K_cancelled \<Rightarrow> handleCancelled chunk state
      | K_error \<Rightarrow> handleError chunk state)"

text \<open>An operation of the core: the dispatch of one event, or a call of one of the three
  functions of the window manager.\<close>

datatype core_op =
  Dispatch fresh_values event_kind stream_chunk
| TrimWindow nat
| SyncTotal
| SetTotal

fun applyOp :: "collaborators \<Rightarrow> message chat_state \<Rightarrow> core_op \<Rightarrow> message chat_state" where
  "applyOp col state (Dispatch fv kind chunk) = dispatch col fv kind chunk state"
| "applyOp col state (TrimWindow maxCount) = snd (trimWindowFromTop state maxCount)"
| "applyOp col state SyncTotal = syncTotalMessagesFromWindow state"
| "applyOp col state SetTotal = setTotalMessagesFromWindow state"

definition runOps :: "collaborators \<Rightarrow> core_op list \<Rightarrow> message chat_state \<Rightarrow> message chat_state" where
  "runOps col ops state = foldl (applyOp col) state ops"

text \<open>The counters of the window manager.\<close>

definition counters :: "'m chat_state \<Rightarrow> nat \<times> nat \<times> bool \<times> nat" where
  "counters s = (windowStartIndex s, totalMessages s, historyFolded s, foldedMessageCount s)"

section \<open>Example stores and events\<close>

text \<open>Concrete values on which the theorems below are instantiated.\<close>

definition exTool :: "string \<Rightarrow> tool_status \<Rightarrow> tool" where
  "exTool i st = \<lparr> t_id = i, t_name = ''read_file'', t_args = ''{}'', t_status = st,
                   t_result = None \<rparr>"

definition exMessage :: "string \<Rightarrow> role \<Rightarrow> string \<Rightarrow> tool list option \<Rightarrow> message" where
  "exMessage i r txt ts =
     \<lparr> m_id = i, m_role = r, m_content = txt, m_timestamp = 1,
       m_parts = None, m_tools = ts, m_metadata = None, m_streaming = Some True,
       m_localOnly = Some True, m_isFunctionResponse = None \<rparr>"

definition exState :: "'m list \<Rightarrow> string option \<Rightarrow> 'm chat_state" where
  "exState msgs sid =
     \<lparr> allMessages = msgs, windowStartIndex = 5, totalMessages = 8,
       streamingMessageId = sid, isStreaming = True, isWaitingForResponse = True,
       checkpoints =
         [\<lparr>cp_id = ''c1'', cp_timestamp = 1, cp_toolName = ''user_message'', cp_messageIndex = 5\<rparr>,
          \<lparr>cp_id = ''c2'', cp_timestamp = 2, cp_toolName = ''read_file'', cp_messageIndex = 7\<rparr>],
       historyFolded = False, foldedMessageCount = 0, error = None \<rparr>"

definition exChunk :: stream_chunk where
  "exChunk = \<lparr> sc_chunk = None, sc_content = None, sc_toolStatus = None, sc_tool = None,
               sc_pendingToolCalls = None, sc_toolResults = None, sc_checkpoints = None,
               sc_error = None \<rparr>"

definition exContent :: content where
  "exContent = \<lparr> ct_parts = [], ct_thinkingDuration = None, ct_responseDuration = None,
                 ct_streamDuration = None, ct_firstChunkTime = None, ct_chunkCount = None \<rparr>"

text \<open>A builder that returns an assistant message without tools, and stream-parser
  helpers that leave the message as it is.\<close>

definition exCol :: collaborators where
  "exCol =
     \<lparr> contentToMessage = (\<lambda>c i.
         \<lparr> m_id = i, m_role = Assistant, m_content = ''done'', m_timestamp = 2,
           m_parts = Some (case c of None \<Rightarrow> [] | Some ct \<Rightarrow> ct_parts ct), m_tools = None,
           m_metadata = Some emptyMetadata, m_streaming = None, m_localOnly = None,
           m_isFunctionResponse = None \<rparr>),
       addTextToMessage = (\<lambda>m txt th. m),
       processStreamingText = (\<lambda>m txt. m),
       flushToolCallBuffer = (\<lambda>m. m),
       handleFunctionCallPart = (\<lambda>p m. m),
       currentModelName = ''model-1'' \<rparr>"

definition exFresh :: fresh_values where
  "exFresh = \<lparr> fv_responseId = ''r1'', fv_responseTime = 10,
               fv_assistantId = ''a2'', fv_assistantTime = 11 \<rparr>"

definition exWindow :: "message chat_state" where
  "exWindow = exState [exMessage ''u1'' User ''hi'' None,
                       exMessage ''a1'' Assistant ''hello'' None,
                       exMessage ''u2'' User ''more'' None] None"

definition exOps :: "core_op list" where
  "exOps = [Dispatch exFresh K_error exChunk, TrimWindow 1, SyncTotal]"

text \<open>A store whose assistant message holds a finished tool, and tool-status events for it.\<close>

definition exDoneState :: "message chat_state" where
  "exDoneState = exState [exMessage ''a1'' Assistant ''text'' (Some [exTool ''t1'' Success])] (Some ''a1'')"

definition exQueuedEvent :: stream_chunk where
  "exQueuedEvent = exChunk\<lparr> sc_toolStatus := Some True,
      sc_tool := Some \<lparr> tu_id = ''t1'', tu_status = Queued, tu_result = None \<rparr> \<rparr>"

definition exOtherEvent :: stream_chunk where
  "exOtherEvent = exChunk\<lparr> sc_toolStatus := Some True,
      sc_tool := Some \<lparr> tu_id = ''t9'', tu_status = Executing, tu_result = None \<rparr> \<rparr>"

text \<open>Stores whose streaming message is an empty placeholder, and one with a running tool.\<close>

definition exPlaceholderState :: "message chat_state" where
  "exPlaceholderState =
     exState [exMessage ''u1'' User ''hi'' None, exMessage ''a1'' Assistant [] None] (Some ''a1'')"

definition exRunningState :: "message chat_state" where
  "exRunningState =
     exState [exMessage ''u1'' User ''hi'' None,
              exMessage ''a1'' Assistant [] (Some [exTool ''t1'' Executing, exTool ''t2'' Success])]
       (Some ''a1'')"

text \<open>A store whose streaming message has tools in several states, and a tools-executing event.\<close>

definition exStreamingTools :: "message chat_state" where
  "exStreamingTools =
     exState [exMessage ''a1'' Assistant ''text''
                (Some [exTool ''t1'' Streaming, exTool ''t2'' Streaming, exTool ''t3'' Streaming,
                       exTool ''t4'' Success])]
       (Some ''a1'')"

definition exExecutingEvent :: stream_chunk where
  "exExecutingEvent = exChunk\<lparr> sc_content := Some exContent,
      sc_pendingToolCalls := Some [\<lparr>pc_id = ''t1''\<rparr>, \<lparr>pc_id = ''t2''\<rparr>] \<rparr>"

text \<open>Tool-iteration events over the store with a running tool.\<close>

definition exResult :: "string option \<Rightarrow> bool \<Rightarrow> tool_result_entry" where
  "exResult i c =
     \<lparr> r_id = i, r_name = ''read_file'',
       r_result = \<lparr> tr_cancelled = c, tr_rejected = False, tr_payload = ''...'' \<rparr> \<rparr>"

definition exIterationEvent :: "tool_result_entry list \<Rightarrow> stream_chunk" where
  "exIterationEvent rs = exChunk\<lparr> sc_content := Some exContent, sc_toolResults := Some rs \<rparr>"

text \<open>The ids of an event's results that the handlers take up, and the events of a replay.\<close>

definition resultIds :: "tool_result_entry list \<Rightarrow> string list" where
  "resultIds rs =
     concat (map (\<lambda>r. case r_id r of None \<Rightarrow> [] | Some k \<Rightarrow> if k \<noteq> [] then [k] else []) rs)"

definition exConfirmationEvent :: stream_chunk where
  "exConfirmationEvent =
     exChunk\<lparr> sc_content := Some exContent,
              sc_pendingToolCalls := Some [\<lparr>pc_id = ''t2''\<rparr>],
              sc_toolResults := Some [exResult (Some ''t1'') False] \<rparr>"

definition exReplayEvent :: stream_chunk where
  "exReplayEvent =
     exIterationEvent [exResult (Some ''t1'') False, exResult (Some ''t2'') False]"

section \<open>The message objects\<close>

text \<open>
  The handlers hold message objects by reference: \<open>allMessages\<close> is an array of references,
  and a reference taken earlier (by a component that renders the message) still points
  to its object after an event. Here a store pairs the chat state, whose \<open>allMessages\<close>
  holds references, with the heap of message objects; a reference is a position in the
  heap, and a new object is put at the end. The fields of a message are held by value.
\<close>

record obj_store =
  os_heap :: "message list"
  os_state :: "nat chat_state"

definition deref :: "obj_store \<Rightarrow> nat \<Rightarrow> message" where
  "deref os r = os_heap os ! r"

text \<open>The message values that \<open>allMessages\<close> shows.\<close>

definition messagesOf :: "obj_store \<Rightarrow> message list" where
  "messagesOf os = map (deref os) (allMessages (os_state os))"

definition onState :: "(nat chat_state \<Rightarrow> nat chat_state) \<Rightarrow> obj_store \<Rightarrow> obj_store" where
  "onState f os = os\<lparr>os_state := f (os_state os)\<rparr>"

text \<open>An assignment to a field of an existing object: the object at \<open>r\<close> becomes \<open>m\<close>.\<close>

definition writeObject :: "nat \<Rightarrow> message \<Rightarrow> obj_store \<Rightarrow> obj_store" where
  "writeObject r m os = os\<lparr>os_heap := (os_heap os)[r := m]\<rparr>"

text \<open>An object literal \<^verbatim>\<open>{ ... }\<close>: a new object, and the reference to it.\<close>

definition newObject :: "message \<Rightarrow> obj_store \<Rightarrow> nat \<times> obj_store" where
  "newObject m os = (length (os_heap os), os\<lparr>os_heap := os_heap os @ [m]\<rparr>)"

text \<open>\<^verbatim>\<open>state.allMessages.value = [...all.slice(0, i), updatedMessage, ...all.slice(i + 1)]\<close>
  with a new object \<^verbatim>\<open>updatedMessage\<close>.\<close>

definition replaceSlot :: "nat \<Rightarrow> message \<Rightarrow> obj_store \<Rightarrow> obj_store" where
  "replaceSlot i m os =
     (let (r, os1) = newObject m os
      in onState (\<lambda>s. s\<lparr>allMessages := replaceAt i r (allMessages s)\<rparr>) os1)"

text \<open>\<^verbatim>\<open>state.allMessages.value.push(newMessage)\<close> with a new object.\<close>

definition pushMessage :: "message \<Rightarrow> obj_store \<Rightarrow> obj_store" where
  "pushMessage m os =
     (let (r, os1) = newObject m os
      in onState (\<lambda>s. s\<lparr>allMessages := allMessages s @ [r]\<rparr>) os1)"

text \<open>\<^verbatim>\<open>handleChunkType\<close> takes the object that \<^verbatim>\<open>find\<close> returns and assigns to its fields;
  the helpers of the stream parser work on the same object.\<close>

definition handleChunkType_obj :: "collaborators \<Rightarrow> stream_chunk \<Rightarrow> obj_store \<Rightarrow> obj_store" where
  "handleChunkType_obj col chunk os =
     (case find (\<lambda>r. Some (m_id (deref os r)) = streamingMessageId (os_state os))
             (allMessages (os_state os)) of
        None \<Rightarrow> os
      | Some r \<Rightarrow>
          (case sc_chunk chunk of
             None \<Rightarrow> os
           | Some bc \<Rightarrow>
               (case bc_delta bc of
                  None \<Rightarrow> os
                | Some delta \<Rightarrow> writeObject r (chunkMutation col bc delta (deref os r)) os)))"

text \<open>In \<^verbatim>\<open>handleToolsExecuting\<close> and \<^verbatim>\<open>handleAwaitingConfirmation\<close> the metadata is
  restored on \<^verbatim>\<open>updatedMessage.metadata\<close> after the spread. When the built message has no
  metadata of its own, that is the metadata object of the old message, and
  \<^verbatim>\<open>delete updatedMessage.metadata.thinkingStartTime\<close> reaches the old message too.\<close>

definition restoreShared :: "collaborators \<Rightarrow> content \<Rightarrow> nat \<Rightarrow> obj_store \<Rightarrow> obj_store" where
  "restoreShared col chunkContent r os =
     (let message = deref os r in
      case m_metadata (contentToMessage col (Some chunkContent) (m_id message)) of
        Some _ \<Rightarrow> os
      | None \<Rightarrow>
          (case m_metadata message of
             None \<Rightarrow> os
           | Some md \<Rightarrow>
               writeObject r
                 (message\<lparr>m_metadata :=
                    Some (restoreMetadata (existingModelVersionOf message) md)\<rparr>) os))"

definition executingReplace_obj ::
  "collaborators \<Rightarrow> stream_chunk \<Rightarrow> obj_store \<Rightarrow> obj_store" where
  "executingReplace_obj col chunk os =
     (case findIndex (\<lambda>m. Some (m_id m) = streamingMessageId (os_state os)) (messagesOf os) of
        None \<Rightarrow> os
      | Some messageIndex \<Rightarrow>
          (case sc_content chunk of
             None \<Rightarrow> os
           | Some chunkContent \<Rightarrow>
               let r = allMessages (os_state os) ! messageIndex;
                   message = deref os r;
                   updatedMessage = executingMessage col chunk chunkContent message
               in replaceSlot messageIndex updatedMessage
                    (restoreShared col chunkContent r os)))"

definition handleToolsExecuting_obj ::
  "collaborators \<Rightarrow> stream_chunk \<Rightarrow> obj_store \<Rightarrow> obj_store" where
  "handleToolsExecuting_obj col chunk os =
     (let os1 = onState (\<lambda>s. s\<lparr>isStreaming := True\<rparr>) os
      in executingReplace_obj col chunk os1)"

definition handleToolStatus_obj :: "stream_chunk \<Rightarrow> obj_store \<Rightarrow> obj_store" where
  "handleToolStatus_obj chunk os =
     (if sc_toolStatus chunk \<noteq> Some True then os
      else case sc_tool chunk of
        None \<Rightarrow> os
      | Some toolUpdate \<Rightarrow>
          (case toolStatusTarget (tu_id toolUpdate) (streamingMessageId (os_state os))
                  (messagesOf os) of
             None \<Rightarrow> os
           | Some messageIndex \<Rightarrow>
               let message = messagesOf os ! messageIndex;
                   updatedMessage = toolStatusMessage toolUpdate message
               in replaceSlot messageIndex updatedMessage os))"

text \<open>The block that appends the hidden function-response message.\<close>

definition appendFunctionResponses_obj ::
  "string \<Rightarrow> nat \<Rightarrow> stream_chunk \<Rightarrow> obj_store \<Rightarrow> obj_store" where
  "appendFunctionResponses_obj newId now chunk os =
     (case sc_toolResults chunk of
        None \<Rightarrow> os
      | Some toolResults \<Rightarrow>
          if length toolResults > 0
          then
            let existing = existingResponseIds (messagesOf os);
                newParts = newResponseParts existing toolResults
            in if length newParts > 0
               then pushMessage (responseMessage newId now newParts) os
               else os
          else os)"

definition confirmationReplace_obj ::
  "collaborators \<Rightarrow> stream_chunk \<Rightarrow> obj_store \<Rightarrow> obj_store" where
  "confirmationReplace_obj col chunk os =
     (case findIndex (\<lambda>m. Some (m_id m) = streamingMessageId (os_state os)) (messagesOf os) of
        None \<Rightarrow> os
      | Some messageIndex \<Rightarrow>
          (case sc_content chunk of
             None \<Rightarrow> os
           | Some chunkContent \<Rightarrow>
               let r = allMessages (os_state os) ! messageIndex;
                   message = deref os r;
                   updatedMessage = confirmationMessage col chunk chunkContent message
               in replaceSlot messageIndex updatedMessage
                    (restoreShared col chunkContent r os)))"

definition handleAwaitingConfirmation_obj ::
  "collaborators \<Rightarrow> string \<Rightarrow> nat \<Rightarrow> stream_chunk \<Rightarrow> obj_store \<Rightarrow> obj_store" where
  "handleAwaitingConfirmation_obj col responseId responseTime chunk os =
     (let os1 = confirmationReplace_obj col chunk os;
          os2 = appendFunctionResponses_obj responseId responseTime chunk os1;
          os3 = onState (addCheckpoints chunk) os2
      in onState (\<lambda>s. s\<lparr>isStreaming := False\<rparr>) os3)"

definition iterationReplace_obj ::
  "collaborators \<Rightarrow> stream_chunk \<Rightarrow> obj_store \<Rightarrow> obj_store" where
  "iterationReplace_obj col chunk os =
     (case findIndex (\<lambda>m. Some (m_id m) = streamingMessageId (os_state os)) (messagesOf os) of
        None \<Rightarrow> os
      | Some messageIndex \<Rightarrow>
          let message = messagesOf os ! messageIndex;
              updatedMessage = iterationMessage col chunk message
          in replaceSlot messageIndex updatedMessage os)"

definition handleToolIteration_obj ::
  "collaborators \<Rightarrow> string \<Rightarrow> nat \<Rightarrow> string \<Rightarrow> nat \<Rightarrow> stream_chunk \<Rightarrow>
     obj_store \<Rightarrow> obj_store" where
  "handleToolIteration_obj col responseId responseTime assistantId assistantTime chunk os =
     (let os1 = iterationReplace_obj col chunk os;
          os2 = appendFunctionResponses_obj responseId responseTime chunk os1;
          os3 = onState (addCheckpoints chunk) os2
      in if hasCancelledTools chunk
         then onState (\<lambda>s. s\<lparr> streamingMessageId := None, isStreaming := False,
                               isWaitingForResponse := False \<rparr>) os3
         else onState (\<lambda>s. s\<lparr> streamingMessageId := Some assistantId, isStreaming := True,
                               isWaitingForResponse := True \<rparr>)
                (pushMessage (newAssistantMessage col assistantId assistantTime) os3))"

text \<open>\<^verbatim>\<open>handleComplete\<close> hands the found object to \<^verbatim>\<open>flushToolCallBuffer\<close> first.\<close>

definition completeReplace_obj ::
  "collaborators \<Rightarrow> stream_chunk \<Rightarrow> obj_store \<Rightarrow> obj_store" where
  "completeReplace_obj col chunk os =
     (case findIndex (\<lambda>m. Some (m_id m) = streamingMessageId (os_state os)) (messagesOf os) of
        None \<Rightarrow> os
      | Some messageIndex \<Rightarrow>
          let r = allMessages (os_state os) ! messageIndex;
              message = deref os r;
              osf = writeObject r (flushToolCallBuffer col message) os
          in replaceSlot messageIndex (completeMessage col chunk message) osf)"

definition handleComplete_obj :: "collaborators \<Rightarrow> stream_chunk \<Rightarrow> obj_store \<Rightarrow> obj_store" where
  "handleComplete_obj col chunk os =
     (let os1 = completeReplace_obj col chunk os;
          os2 = onState (addCheckpoints chunk) os1
      in onState (\<lambda>s. s\<lparr> streamingMessageId := None, isStreaming := False,
                            isWaitingForResponse := False \<rparr>) os2)"

definition cancelledReplace_obj :: "stream_chunk \<Rightarrow> obj_store \<Rightarrow> obj_store" where
  "cancelledReplace_obj chunk os =
     (case cancelledTarget (streamingMessageId (os_state os)) (messagesOf os) of
        None \<Rightarrow> os
      | Some messageIndex \<Rightarrow>
          let message = messagesOf os ! messageIndex in
          if isEmptyPlaceholder message
          then onState (\<lambda>s. s\<lparr>allMessages := removeAt messageIndex (allMessages s)\<rparr>) os
          else replaceSlot messageIndex (cancelledMessage chunk message) os)"

definition handleCancelled_obj :: "stream_chunk \<Rightarrow> obj_store \<Rightarrow> obj_store" where
  "handleCancelled_obj chunk os =
     (let os1 = cancelledReplace_obj chunk os
      in onState (\<lambda>s. s\<lparr> streamingMessageId := None, isStreaming := False,
                            isWaitingForResponse := False \<rparr>) os1)"

definition handleError_obj :: "stream_chunk \<Rightarrow> obj_store \<Rightarrow> obj_store" where
  "handleError_obj chunk os =
     (let os1 = onState (\<lambda>s. s\<lparr>error :=
                  Some (case sc_error chunk of Some e \<Rightarrow> e | None \<Rightarrow> defaultStreamError)\<rparr>) os;
          sid = streamingMessageId (os_state os1);
          os2 =
            (if truthy sid
             then
               let messageToRemove = find (\<lambda>m. Some (m_id m) = sid) (messagesOf os1);
                   os1' =
                     (case messageToRemove of
                        None \<Rightarrow> os1
                      | Some m \<Rightarrow>
                          if isEmptyPlaceholder m
                          then onState (\<lambda>s. s\<lparr>allMessages :=
                                 filter (\<lambda>r. Some (m_id (deref os1 r)) \<noteq> sid) (allMessages s)\<rparr>) os1
                          else os1)
               in onState (\<lambda>s. s\<lparr>streamingMessageId := None\<rparr>) os1'
             else os1)
      in onState (\<lambda>s. s\<lparr>isStreaming := False, isWaitingForResponse := False\<rparr>) os2)"

definition dispatch_obj ::
  "collaborators \<Rightarrow> fresh_values \<Rightarrow> event_kind \<Rightarrow> stream_chunk \<Rightarrow> obj_store \<Rightarrow> obj_store" where
  "dispatch_obj col fv kind chunk os =
     (case kind of
        K_chunk \<Rightarrow> handleChunkType_obj col chunk os
      | K_toolsExecuting \<Rightarrow> handleToolsExecuting_obj col chunk os
      | K_toolStatus \<Rightarrow> handleToolStatus_obj chunk os
      | K_awaitingConfirmation \<Rightarrow>
          handleAwaitingConfirmation_obj col (fv_responseId fv) (fv_responseTime fv) chunk os
      | K_toolIteration \<Rightarrow>
          handleToolIteration_obj col (fv_responseId fv) (fv_responseTime fv)
            (fv_assistantId fv) (fv_assistantTime fv) chunk os
      | K_complete \<Rightarrow> handleComplete_obj col chunk os
      | K_checkpoints \<Rightarrow> onState (handleCheckpoints chunk) os
      | K_cancelled \<Rightarrow> handleCancelled_obj chunk os
      | K_error \<Rightarrow> handleError_obj chunk os)"

text \<open>The store that the value model sees.\<close>

definition view :: "obj_store \<Rightarrow> message chat_state" where
  "view os =
     \<lparr> allMessages = messagesOf os,
       windowStartIndex = windowStartIndex (os_state os),
       totalMessages = totalMessages (os_state os),
       streamingMessageId = streamingMessageId (os_state os),
       isStreaming = isStreaming (os_state os),
       isWaitingForResponse = isWaitingForResponse (os_state os),
       checkpoints = checkpoints (os_state os),
       historyFolded = historyFolded (os_state os),
       foldedMessageCount = foldedMessageCount (os_state os),
       error = error (os_state os) \<rparr>"

text \<open>Every reference in \<open>allMessages\<close> points to an object.\<close>

definition wf_store :: "obj_store \<Rightarrow> bool" where
  "wf_store os = (\<forall>r \<in> set (allMessages (os_state os)). r < length (os_heap os))"

definition exObjStore :: obj_store where
  "exObjStore = \<lparr> os_heap = [exMessage ''a1'' Assistant [] None],
                  os_state = exState [0] (Some ''a1'') \<rparr>"

definition exDeltaEvent :: stream_chunk where
  "exDeltaEvent =
     exChunk\<lparr>sc_chunk := Some \<lparr> bc_delta = Some [], bc_done = True,
        bc_usage = Some \<lparr> u_thoughtsTokenCount = Some 3, u_candidatesTokenCount = Some 7,
                          u_totalTokenCount = Some 10 \<rparr>,
        bc_thinkingStartTime = None \<rparr>\<rparr>"

text \<open>\<open>grows os os'\<close>: the heap of \<open>os'\<close> is the heap of \<open>os\<close> with new objects at the end,
  and every slot of \<open>os'\<close> holds a reference of \<open>os\<close> or one to a new object.\<close>

definition grows :: "obj_store \<Rightarrow> obj_store \<Rightarrow> bool" where
  "grows os os' =
     ((\<exists>extra. os_heap os' = os_heap os @ extra) \<and>
      (\<forall>x \<in> set (allMessages (os_state os')).
         x \<in> set (allMessages (os_state os)) \<or>
         (length (os_heap os) \<le> x \<and> x < length (os_heap os'))))"

definition exObjRunning :: obj_store where
  "exObjRunning =
     \<lparr> os_heap = [exMessage ''u1'' User ''hi'' None,
                  exMessage ''a1'' Assistant [] (Some [exTool ''t1'' Executing, exTool ''t2'' Success])],
       os_state = exState [0, 1] (Some ''a1'') \<rparr>"

definition exDoneEvent :: stream_chunk where
  "exDoneEvent = exChunk\<lparr> sc_toolStatus := Some True,
      sc_tool := Some \<lparr> tu_id = ''t1'', tu_status = Success, tu_result = None \<rparr> \<rparr>"

text \<open>A builder whose message has tools of its own: one that the streaming message has
  already, and a new one.\<close>

definition exColTools :: collaborators where
  "exColTools =
     exCol\<lparr>contentToMessage := (\<lambda>c i.
        (contentToMessage exCol c i)
          \<lparr>m_tools := Some [exTool ''t1'' Success, exTool ''t5'' Success]\<rparr>)\<rparr>"

section \<open>Properties of the window manager\<close>

text \<open>
  C5. If the window holds at most \<open>maxCount\<close> messages, \<open>trimWindowFromTop\<close> returns 0 and
  the store is unchanged. Otherwise it drops exactly \<open>length allMessages - maxCount\<close>
  messages from the front, advances \<open>windowStartIndex\<close> by that number and returns it,
  keeps exactly the checkpoints whose \<open>messageIndex\<close> is not below the new
  \<open>windowStartIndex\<close>, sets \<open>historyFolded\<close> and adds the number to \<open>foldedMessageCount\<close>.
\<close>

theorem trimWindowFromTop_spec:
  "(length (allMessages s) \<le> maxCount \<longrightarrow> trimWindowFromTop s maxCount = (0, s)) \<and>
   (maxCount < length (allMessages s) \<longrightarrow>
      (let n = length (allMessages s) - maxCount;
           s' = snd (trimWindowFromTop s maxCount)
       in fst (trimWindowFromTop s maxCount) = n \<and>
          allMessages s' = drop n (allMessages s) \<and>
          length (allMessages s) = n + length (allMessages s') \<and>
          windowStartIndex s' = windowStartIndex s + n \<and>
          checkpoints s' =
            filter (\<lambda>cp. \<not> cp_messageIndex cp < windowStartIndex s') (checkpoints s) \<and>
          historyFolded s' = True \<and>
          foldedMessageCount s' = foldedMessageCount s + n))"
  by (auto simp: trimWindowFromTop_def syncTotalMessagesFromWindow_def Let_def not_less)

theorem trimWindowFromTop_spec_witness:
  "length (allMessages (exState [10, 11, 12 :: nat] None)) \<le> 3 \<and>
   trimWindowFromTop (exState [10, 11, 12 :: nat] None) 3 = (0, exState [10, 11, 12] None) \<and>
   1 < length (allMessages (exState [10, 11, 12 :: nat] None)) \<and>
   fst (trimWindowFromTop (exState [10, 11, 12 :: nat] None) 1) = 2 \<and>
   allMessages (snd (trimWindowFromTop (exState [10, 11, 12 :: nat] None) 1)) = [12] \<and>
   windowStartIndex (snd (trimWindowFromTop (exState [10, 11, 12 :: nat] None) 1)) = 7 \<and>
   map cp_id (checkpoints (snd (trimWindowFromTop (exState [10, 11, 12 :: nat] None) 1))) = [''c2''] \<and>
   historyFolded (snd (trimWindowFromTop (exState [10, 11, 12 :: nat] None) 1)) \<and>
   foldedMessageCount (snd (trimWindowFromTop (exState [10, 11, 12 :: nat] None) 1)) = 2"
  using trimWindowFromTop_spec [of "exState [10, 11, 12 :: nat] None" 3]
        trimWindowFromTop_spec [of "exState [10, 11, 12 :: nat] None" 1]
  by (simp add: exState_def Let_def)

section \<open>The counters along sequences of operations\<close>

lemma counters_update [simp]:
  "counters (s\<lparr>allMessages := a\<rparr>) = counters s"
  "counters (s\<lparr>streamingMessageId := b\<rparr>) = counters s"
  "counters (s\<lparr>isStreaming := c\<rparr>) = counters s"
  "counters (s\<lparr>isWaitingForResponse := d\<rparr>) = counters s"
  "counters (s\<lparr>checkpoints := e\<rparr>) = counters s"
  "counters (s\<lparr>error := f\<rparr>) = counters s"
  by (simp_all add: counters_def)

lemma counters_addCheckpoints: "counters (addCheckpoints c s) = counters s"
proof -
  have "counters (foldl (\<lambda>s cp. addCheckpoint cp s) s cps) = counters s" for cps
    by (induction cps arbitrary: s) (simp_all add: addCheckpoint_def)
  then show ?thesis by (simp add: addCheckpoints_def split: option.splits)
qed

lemma counters_appendFunctionResponses:
  "counters (appendFunctionResponses i n c s) = counters s"
  by (simp add: appendFunctionResponses_def Let_def split: option.splits)

lemma counters_handleChunkType: "counters (handleChunkType col c s) = counters s"
  by (simp add: handleChunkType_def split: option.splits)

lemma counters_handleToolsExecuting: "counters (handleToolsExecuting col c s) = counters s"
  by (simp add: handleToolsExecuting_def executingReplace_def Let_def split: option.splits)

lemma counters_handleToolStatus: "counters (handleToolStatus c s) = counters s"
  by (simp add: handleToolStatus_def Let_def split: option.splits)

lemma counters_handleAwaitingConfirmation:
  "counters (handleAwaitingConfirmation col i n c s) = counters s"
  by (simp add: handleAwaitingConfirmation_def Let_def counters_addCheckpoints
        counters_appendFunctionResponses confirmationReplace_def split: option.splits)

lemma counters_handleToolIteration:
  "counters (handleToolIteration col i n j k c s) = counters s"
  by (simp add: handleToolIteration_def Let_def counters_addCheckpoints
        counters_appendFunctionResponses iterationReplace_def split: option.splits)

lemma counters_handleComplete: "counters (handleComplete col c s) = counters s"
  by (simp add: handleComplete_def Let_def counters_addCheckpoints completeReplace_def
        split: option.splits)

lemma counters_handleCheckpoints: "counters (handleCheckpoints c s) = counters s"
  by (simp add: handleCheckpoints_def counters_addCheckpoints)

lemma counters_handleCancelled: "counters (handleCancelled c s) = counters s"
  by (simp add: handleCancelled_def Let_def cancelledReplace_def split: option.splits)

lemma counters_handleError: "counters (handleError c s) = counters s"
  by (simp add: handleError_def Let_def split: option.splits)

text \<open>No event handler writes a counter of the window manager.\<close>

lemma counters_dispatch: "counters (dispatch col fv kind c s) = counters s"
  by (cases kind)
     (simp_all add: dispatch_def counters_handleChunkType counters_handleToolsExecuting
        counters_handleToolStatus counters_handleAwaitingConfirmation
        counters_handleToolIteration counters_handleComplete counters_handleCheckpoints
        counters_handleCancelled counters_handleError)

lemma folded_applyOp: "foldedMessageCount s \<le> foldedMessageCount (applyOp col s op)"
proof (cases op)
  case (Dispatch fv kind c)
  have "counters (applyOp col s op) = counters s"
    using Dispatch by (simp add: counters_dispatch)
  then show ?thesis by (simp add: counters_def)
next
  case (TrimWindow n)
  then show ?thesis
    by (auto simp: trimWindowFromTop_def syncTotalMessagesFromWindow_def Let_def)
next
  case SyncTotal
  then show ?thesis by (simp add: syncTotalMessagesFromWindow_def)
next
  case SetTotal
  then show ?thesis by (simp add: setTotalMessagesFromWindow_def)
qed

lemma total_applyOp:
  assumes "op \<noteq> SetTotal"
  shows "totalMessages s \<le> totalMessages (applyOp col s op)"
proof (cases op)
  case (Dispatch fv kind c)
  have "counters (applyOp col s op) = counters s"
    using Dispatch by (simp add: counters_dispatch)
  then show ?thesis by (simp add: counters_def)
next
  case (TrimWindow n)
  then show ?thesis
    by (auto simp: trimWindowFromTop_def syncTotalMessagesFromWindow_def Let_def)
next
  case SyncTotal
  then show ?thesis by (simp add: syncTotalMessagesFromWindow_def)
next
  case SetTotal
  with assms show ?thesis by simp
qed

lemma folded_runOps: "foldedMessageCount s \<le> foldedMessageCount (runOps col ops s)"
  unfolding runOps_def
proof (induction ops arbitrary: s)
  case Nil
  show ?case by simp
next
  case (Cons op ops)
  have "foldedMessageCount s \<le> foldedMessageCount (applyOp col s op)"
    by (rule folded_applyOp)
  also have "\<dots> \<le> foldedMessageCount (foldl (applyOp col) (applyOp col s op) ops)"
    by (rule Cons.IH)
  finally show ?case by simp
qed

lemma total_runOps:
  "SetTotal \<notin> set ops \<Longrightarrow> totalMessages s \<le> totalMessages (runOps col ops s)"
  unfolding runOps_def
proof (induction ops arbitrary: s)
  case Nil
  show ?case by simp
next
  case (Cons op ops)
  from Cons.prems have ne: "op \<noteq> SetTotal" and rest: "SetTotal \<notin> set ops" by auto
  have "totalMessages s \<le> totalMessages (applyOp col s op)"
    using ne by (rule total_applyOp)
  also have "\<dots> \<le> totalMessages (foldl (applyOp col) (applyOp col s op) ops)"
    using rest by (rule Cons.IH)
  finally show ?case by simp
qed

text \<open>
  C9. Along every sequence of operations of the core (dispatched events, window trims,
  and the two functions that set \<open>totalMessages\<close>) \<open>foldedMessageCount\<close> never decreases;
  the core has no operation that resets it. Along every sequence without the
  history-shrinking \<open>setTotalMessagesFromWindow\<close>, \<open>totalMessages\<close> never decreases.
  \<open>syncTotalMessagesFromWindow\<close> sets \<open>totalMessages\<close> to the maximum of its old value and
  \<open>windowStartIndex + length allMessages\<close>, and a trim adds the number it returns to
  \<open>foldedMessageCount\<close>.
\<close>

theorem counters_monotone:
  "foldedMessageCount s \<le> foldedMessageCount (runOps col ops s) \<and>
   (SetTotal \<notin> set ops \<longrightarrow> totalMessages s \<le> totalMessages (runOps col ops s)) \<and>
   totalMessages (syncTotalMessagesFromWindow s) =
     max (totalMessages s) (windowStartIndex s + length (allMessages s)) \<and>
   foldedMessageCount (snd (trimWindowFromTop s maxCount)) =
     foldedMessageCount s + fst (trimWindowFromTop s maxCount)"
proof -
  have "foldedMessageCount (snd (trimWindowFromTop s maxCount)) =
        foldedMessageCount s + fst (trimWindowFromTop s maxCount)"
    by (simp add: trimWindowFromTop_def syncTotalMessagesFromWindow_def Let_def)
  moreover have "totalMessages (syncTotalMessagesFromWindow s) =
        max (totalMessages s) (windowStartIndex s + length (allMessages s))"
    by (simp add: syncTotalMessagesFromWindow_def)
  ultimately show ?thesis
    using folded_runOps [of s col ops] total_runOps [of ops s col] by blast
qed

theorem counters_monotone_witness:
  "SetTotal \<notin> set exOps \<and>
   foldedMessageCount exWindow \<le> foldedMessageCount (runOps exCol exOps exWindow) \<and>
   totalMessages exWindow \<le> totalMessages (runOps exCol exOps exWindow) \<and>
   foldedMessageCount (runOps exCol exOps exWindow) = 2"
  using counters_monotone [of exWindow exCol exOps 1]
  by (simp add: exOps_def exWindow_def exState_def exMessage_def exChunk_def runOps_def
      dispatch_def handleError_def truthy_def trimWindowFromTop_def
      syncTotalMessagesFromWindow_def Let_def)

section \<open>Searching the window\<close>

lemma findIndex_Some:
  "findIndex P xs = Some i \<Longrightarrow> i < length xs \<and> P (xs ! i) \<and> (\<forall>j < i. \<not> P (xs ! j))"
proof (induction xs arbitrary: i)
  case Nil
  then show ?case by simp
next
  case (Cons x xs)
  show ?case
  proof (cases "P x")
    case True
    with Cons.prems show ?thesis by simp
  next
    case False
    with Cons.prems obtain k where k: "findIndex P xs = Some k" and i: "i = Suc k"
      by auto
    from Cons.IH [OF k] False i show ?thesis
      by (auto simp: nth_Cons split: nat.splits)
  qed
qed

lemma findIndex_None: "findIndex P xs = None \<longleftrightarrow> (\<forall>x \<in> set xs. \<not> P x)"
  by (induction xs) auto

lemma findLastIndex_None: "findLastIndex P xs = None \<longleftrightarrow> (\<forall>x \<in> set xs. \<not> P x)"
  by (induction xs) (auto split: option.splits)

lemma findLastIndex_Some:
  "findLastIndex P xs = Some i \<Longrightarrow>
     i < length xs \<and> P (xs ! i) \<and> (\<forall>j. i < j \<and> j < length xs \<longrightarrow> \<not> P (xs ! j))"
proof (induction xs arbitrary: i)
  case Nil
  then show ?case by simp
next
  case (Cons x xs)
  show ?case
  proof (cases "findLastIndex P xs")
    case None
    with Cons.prems have "P x" and "i = 0" by (auto split: if_splits)
    moreover from None have "\<forall>j < length xs. \<not> P (xs ! j)"
      by (simp add: findLastIndex_None)
    ultimately show ?thesis by (auto simp: nth_Cons split: nat.splits)
  next
    case (Some k)
    with Cons.prems have i: "i = Suc k" by simp
    from Cons.IH [OF Some] i show ?thesis
      by (auto simp: nth_Cons split: nat.splits)
  qed
qed

lemma replaceAt_list_update: "i < length xs \<Longrightarrow> replaceAt i x xs = xs[i := x]"
  by (simp add: replaceAt_def upd_conv_take_nth_drop)

lemma toolStatusTarget_Some:
  "toolStatusTarget tid sid all = Some i \<Longrightarrow> i < length all \<and> ownsTool tid (all ! i)"
  by (auto simp: toolStatusTarget_def Let_def split: if_splits option.splits
           dest: findIndex_Some findLastIndex_Some)

lemma toolStatusTarget_None:
  "toolStatusTarget tid sid all = None \<longleftrightarrow> (\<forall>m \<in> set all. \<not> ownsTool tid m)"
proof
  assume "toolStatusTarget tid sid all = None"
  then have "findLastIndex (ownsTool tid) all = None"
    by (auto simp: toolStatusTarget_def Let_def split: if_splits option.splits)
  then show "\<forall>m \<in> set all. \<not> ownsTool tid m" by (simp add: findLastIndex_None)
next
  assume a: "\<forall>m \<in> set all. \<not> ownsTool tid m"
  then have "findLastIndex (ownsTool tid) all = None" by (simp add: findLastIndex_None)
  moreover have "\<And>idx. idx < length all \<Longrightarrow> \<not> ownsTool tid (all ! idx)" using a by simp
  ultimately show "toolStatusTarget tid sid all = None"
    by (auto simp: toolStatusTarget_def Let_def split: option.splits dest: findIndex_Some)
qed

section \<open>\<^verbatim>\<open>handleToolStatus\<close>\<close>

lemma map_if_distinct:
  assumes "distinct (map g ts)" "j < length ts" "g (ts ! j) = k"
  shows "map (\<lambda>t. if g t = k then h t else t) ts = ts[j := h (ts ! j)]"
proof (rule nth_equalityI)
  show "length (map (\<lambda>t. if g t = k then h t else t) ts) = length (ts[j := h (ts ! j)])" by simp
next
  fix n assume n: "n < length (map (\<lambda>t. if g t = k then h t else t) ts)"
  show "map (\<lambda>t. if g t = k then h t else t) ts ! n = ts[j := h (ts ! j)] ! n"
  proof (cases "n = j")
    case True
    with assms show ?thesis by simp
  next
    case False
    have "g (ts ! n) \<noteq> k"
    proof
      assume "g (ts ! n) = k"
      with assms n have "map g ts ! n = map g ts ! j" by simp
      with nth_eq_iff_index_eq [OF assms(1), of n j] n assms(2) have "n = j" by simp
      with False show False by simp
    qed
    with n False show ?thesis by simp
  qed
qed

lemma handleToolStatus_target:
  assumes "sc_toolStatus c = Some True" "sc_tool c = Some tu"
      and "toolStatusTarget (tu_id tu) (streamingMessageId s) (allMessages s) = Some i"
  shows "handleToolStatus c s =
           s\<lparr>allMessages := (allMessages s)[i := toolStatusMessage tu (allMessages s ! i)]\<rparr>"
  using assms toolStatusTarget_Some [OF assms(3)]
  by (simp add: handleToolStatus_def Let_def replaceAt_list_update)

text \<open>
  C10. A tool-status event without the \<open>toolStatus\<close> flag or without the \<open>tool\<close> payload
  leaves the whole store unchanged, and so does one whose tool id no assistant message
  contains. Otherwise exactly one slot of \<open>allMessages\<close> changes, an assistant message that
  contains the tool id, and in it only \<open>tools\<close>: an entry with another id is unchanged, an
  entry with the event's id gets the event's status and, when the event carries a result,
  that result. Every other message and every other field of the store are unchanged. When
  the tool ids of the message are distinct, a single entry changes.
\<close>

theorem handleToolStatus_frame:
  "(sc_toolStatus c \<noteq> Some True \<or> sc_tool c = None \<longrightarrow> handleToolStatus c s = s) \<and>
   (\<forall>tu. sc_tool c = Some tu \<and> (\<forall>m \<in> set (allMessages s). \<not> ownsTool (tu_id tu) m) \<longrightarrow>
      handleToolStatus c s = s) \<and>
   (\<forall>tu. sc_toolStatus c = Some True \<and> sc_tool c = Some tu \<and>
         (\<exists>m \<in> set (allMessages s). ownsTool (tu_id tu) m) \<longrightarrow>
      (\<exists>i ts. i < length (allMessages s) \<and>
         m_role (allMessages s ! i) = Assistant \<and>
         m_tools (allMessages s ! i) = Some ts \<and>
         (\<exists>t \<in> set ts. t_id t = tu_id tu) \<and>
         handleToolStatus c s =
           s\<lparr>allMessages := (allMessages s)
               [i := (allMessages s ! i)
                  \<lparr>m_tools := Some (map (\<lambda>t. if t_id t = tu_id tu
                       then t\<lparr> t_status := tu_status tu,
                               t_result := (case tu_result tu of
                                              None \<Rightarrow> t_result t | Some r \<Rightarrow> Some r) \<rparr>
                       else t) ts)\<rparr>]\<rparr> \<and>
         (distinct (map t_id ts) \<longrightarrow>
            (\<exists>j < length ts. t_id (ts ! j) = tu_id tu \<and>
               map (\<lambda>t. if t_id t = tu_id tu
                       then t\<lparr> t_status := tu_status tu,
                               t_result := (case tu_result tu of
                                              None \<Rightarrow> t_result t | Some r \<Rightarrow> Some r) \<rparr>
                       else t) ts =
               ts[j := (ts ! j)\<lparr> t_status := tu_status tu,
                               t_result := (case tu_result tu of
                                      None \<Rightarrow> t_result (ts ! j) | Some r \<Rightarrow> Some r) \<rparr>]))))"
proof (intro conjI allI impI)
  assume "sc_toolStatus c \<noteq> Some True \<or> sc_tool c = None"
  then show "handleToolStatus c s = s"
    by (auto simp: handleToolStatus_def)
next
  fix tu
  assume a: "sc_tool c = Some tu \<and> (\<forall>m \<in> set (allMessages s). \<not> ownsTool (tu_id tu) m)"
  then have "toolStatusTarget (tu_id tu) (streamingMessageId s) (allMessages s) = None"
    by (simp add: toolStatusTarget_None)
  with a show "handleToolStatus c s = s"
    by (simp add: handleToolStatus_def Let_def)
next
  fix tu :: tool_update
  let ?f = "\<lambda>t. if t_id t = tu_id tu
                       then t\<lparr> t_status := tu_status tu,
                               t_result := (case tu_result tu of
                                              None \<Rightarrow> t_result t | Some r \<Rightarrow> Some r) \<rparr>
                       else t"
  assume a: "sc_toolStatus c = Some True \<and> sc_tool c = Some tu \<and>
         (\<exists>m \<in> set (allMessages s). ownsTool (tu_id tu) m)"
  then have "toolStatusTarget (tu_id tu) (streamingMessageId s) (allMessages s) \<noteq> None"
    by (simp add: toolStatusTarget_None)
  then obtain i where
    i: "toolStatusTarget (tu_id tu) (streamingMessageId s) (allMessages s) = Some i"
    by auto
  from toolStatusTarget_Some [OF i]
  have il: "i < length (allMessages s)" and own: "ownsTool (tu_id tu) (allMessages s ! i)"
    by simp_all
  from own obtain ts where
    ts: "m_tools (allMessages s ! i) = Some ts" and ex: "\<exists>t \<in> set ts. t_id t = tu_id tu"
    and ro: "m_role (allMessages s ! i) = Assistant"
    by (auto simp: ownsTool_def split: option.splits)
  have fe: "toolStatusEntry tu = ?f"
    by (rule ext) (simp add: toolStatusEntry_def)
  have upd: "handleToolStatus c s =
      s\<lparr>allMessages := (allMessages s)[i := (allMessages s ! i)\<lparr>m_tools := Some (map ?f ts)\<rparr>]\<rparr>"
    using a i ts by (simp add: handleToolStatus_target toolStatusMessage_def fe)
  have single: "distinct (map t_id ts) \<longrightarrow>
            (\<exists>j < length ts. t_id (ts ! j) = tu_id tu \<and>
               map ?f ts = ts[j := (ts ! j)\<lparr> t_status := tu_status tu,
                               t_result := (case tu_result tu of
                                      None \<Rightarrow> t_result (ts ! j) | Some r \<Rightarrow> Some r) \<rparr>])"
  proof
    assume d: "distinct (map t_id ts)"
    from ex obtain j where j: "j < length ts" "t_id (ts ! j) = tu_id tu"
      by (auto simp: in_set_conv_nth)
    have "map (\<lambda>t. if t_id t = tu_id tu
                 then (\<lambda>t. t\<lparr> t_status := tu_status tu,
                               t_result := (case tu_result tu of
                                              None \<Rightarrow> t_result t | Some r \<Rightarrow> Some r) \<rparr>) t
                 else t) ts =
          ts[j := (\<lambda>t. t\<lparr> t_status := tu_status tu,
                               t_result := (case tu_result tu of
                                              None \<Rightarrow> t_result t | Some r \<Rightarrow> Some r) \<rparr>) (ts ! j)]"
      using d j by (rule map_if_distinct)
    with j show "\<exists>j < length ts. t_id (ts ! j) = tu_id tu \<and>
               map ?f ts = ts[j := (ts ! j)\<lparr> t_status := tu_status tu,
                               t_result := (case tu_result tu of
                                      None \<Rightarrow> t_result (ts ! j) | Some r \<Rightarrow> Some r) \<rparr>]"
      by auto
  qed
  from il ro ts ex upd single
  show "\<exists>i ts. i < length (allMessages s) \<and>
         m_role (allMessages s ! i) = Assistant \<and>
         m_tools (allMessages s ! i) = Some ts \<and>
         (\<exists>t \<in> set ts. t_id t = tu_id tu) \<and>
         handleToolStatus c s =
           s\<lparr>allMessages := (allMessages s)
               [i := (allMessages s ! i)\<lparr>m_tools := Some (map ?f ts)\<rparr>]\<rparr> \<and>
         (distinct (map t_id ts) \<longrightarrow>
            (\<exists>j < length ts. t_id (ts ! j) = tu_id tu \<and>
               map ?f ts =
               ts[j := (ts ! j)\<lparr> t_status := tu_status tu,
                               t_result := (case tu_result tu of
                                      None \<Rightarrow> t_result (ts ! j) | Some r \<Rightarrow> Some r) \<rparr>]))"
    by blast
qed

lemmas ex_defs = exState_def exMessage_def exTool_def exChunk_def exContent_def exFresh_def

lemmas ex_status_defs = exDoneState_def exQueuedEvent_def exOtherEvent_def ex_defs

theorem handleToolStatus_frame_witness:
  "sc_toolStatus exChunk \<noteq> Some True \<and>
   handleToolStatus exChunk exDoneState = exDoneState \<and>
   distinct (map t_id [exTool ''t1'' Success]) \<and>
   handleToolStatus exOtherEvent exDoneState = exDoneState \<and>
   (\<exists>m \<in> set (allMessages exDoneState). ownsTool ''t1'' m) \<and>
   handleToolStatus exQueuedEvent exDoneState =
     exDoneState\<lparr>allMessages :=
       [exMessage ''a1'' Assistant ''text'' (Some [exTool ''t1'' Queued])]\<rparr>"
  using handleToolStatus_frame [of exChunk exDoneState]
        handleToolStatus_frame [of exOtherEvent exDoneState]
        handleToolStatus_frame [of exQueuedEvent exDoneState]
  by (simp add: ex_status_defs ownsTool_def)

text \<open>
  A tool that has reached \<open>success\<close> is moved back to \<open>queued\<close> by a later tool-status
  event that carries \<open>queued\<close> and no result.
\<close>

theorem handleToolStatus_regress_counterexample:
  "m_tools (allMessages exDoneState ! 0) = Some [exTool ''t1'' Success] \<and>
   sc_toolStatus exQueuedEvent = Some True \<and>
   sc_tool exQueuedEvent = Some \<lparr> tu_id = ''t1'', tu_status = Queued, tu_result = None \<rparr> \<and>
   m_tools (allMessages (handleToolStatus exQueuedEvent exDoneState) ! 0) =
     Some [exTool ''t1'' Queued] \<and>
   t_status (exTool ''t1'' Queued) \<notin> {Success, Error}"
  by (simp add: ex_status_defs handleToolStatus_def toolStatusTarget_def truthy_def ownsTool_def
        toolStatusMessage_def toolStatusEntry_def replaceAt_def Let_def)

text \<open>
  C1, as the code has it. For every tool-status event whose tool id matches a tool of the
  owning assistant message, whatever the status of that tool, \<open>handleToolStatus\<close> sets the
  tool's status to the status the event carries: the tool is in a terminal status
  afterwards exactly when the event's status is \<open>success\<close> or \<open>error\<close>. The tool's result
  is kept when the event carries none.
\<close>

theorem handleToolStatus_overwrites:
  assumes "sc_toolStatus c = Some True" and "sc_tool c = Some tu"
      and "toolStatusTarget (tu_id tu) (streamingMessageId s) (allMessages s) = Some i"
      and "m_tools (allMessages s ! i) = Some ts"
      and "j < length ts" and "t_id (ts ! j) = tu_id tu"
  shows "\<exists>ts'. m_tools (allMessages (handleToolStatus c s) ! i) = Some ts' \<and>
           length ts' = length ts \<and>
           t_id (ts' ! j) = tu_id tu \<and>
           t_status (ts' ! j) = tu_status tu \<and>
           t_result (ts' ! j) =
             (case tu_result tu of None \<Rightarrow> t_result (ts ! j) | Some r \<Rightarrow> Some r) \<and>
           (t_status (ts' ! j) \<in> {Success, Error} \<longleftrightarrow> tu_status tu \<in> {Success, Error})"
proof -
  from toolStatusTarget_Some [OF assms(3)] have il: "i < length (allMessages s)" by simp
  have "m_tools (allMessages (handleToolStatus c s) ! i) =
          Some (map (toolStatusEntry tu) ts)"
    using assms(1-4) il by (simp add: handleToolStatus_target toolStatusMessage_def)
  moreover have "toolStatusEntry tu (ts ! j) =
      (ts ! j)\<lparr> t_status := tu_status tu,
                t_result := (case tu_result tu of None \<Rightarrow> t_result (ts ! j) | Some r \<Rightarrow> Some r) \<rparr>"
    using assms(6) by (simp add: toolStatusEntry_def)
  ultimately show ?thesis using assms(5,6) by simp
qed

theorem handleToolStatus_overwrites_witness:
  "sc_toolStatus exQueuedEvent = Some True \<and>
   toolStatusTarget ''t1'' (streamingMessageId exDoneState) (allMessages exDoneState) = Some 0 \<and>
   m_tools (allMessages exDoneState ! 0) = Some [exTool ''t1'' Success] \<and>
   (\<exists>ts'. m_tools (allMessages (handleToolStatus exQueuedEvent exDoneState) ! 0) = Some ts' \<and>
          t_status (ts' ! 0) = Queued \<and> t_result (ts' ! 0) = None)"
proof -
  have a: "sc_toolStatus exQueuedEvent = Some True"
    and b: "sc_tool exQueuedEvent = Some \<lparr> tu_id = ''t1'', tu_status = Queued, tu_result = None \<rparr>"
    and c: "toolStatusTarget (tu_id \<lparr> tu_id = ''t1'', tu_status = Queued, tu_result = None \<rparr>)
              (streamingMessageId exDoneState) (allMessages exDoneState) = Some 0"
    and d: "m_tools (allMessages exDoneState ! 0) = Some [exTool ''t1'' Success]"
    and e: "0 < length [exTool ''t1'' Success]"
    and f: "t_id ([exTool ''t1'' Success] ! 0) =
              tu_id \<lparr> tu_id = ''t1'', tu_status = Queued, tu_result = None \<rparr>"
    by (simp_all add: ex_status_defs toolStatusTarget_def truthy_def ownsTool_def)
  from handleToolStatus_overwrites [OF a b c d e f] a c d show ?thesis
    by (auto simp: exTool_def)
qed

section \<open>\<^verbatim>\<open>handleCancelled\<close> and \<^verbatim>\<open>handleError\<close>\<close>

lemma removeAt_take_drop: "removeAt i xs = take i xs @ drop (Suc i) xs"
proof (induction xs rule: rev_induct)
  case Nil
  show ?case by (simp add: removeAt_def)
next
  case (snoc x xs)
  have "removeAt i (xs @ [x]) = removeAt i xs @ (if length xs \<noteq> i then [x] else [])"
    by (simp add: removeAt_def)
  with snoc show ?case by (cases "i < length xs") auto
qed

lemma cancelledTarget_Some:
  "cancelledTarget sid all = Some i \<Longrightarrow> i < length all"
  by (auto simp: cancelledTarget_def Let_def split: if_splits list.splits dest: findIndex_Some)

text \<open>
  C6. A cancelled event locates its message through \<open>streamingMessageId\<close> or, when that is
  cleared, as the last message if it is an assistant message that is not streaming. If the
  located message has empty content, no \<open>tools\<close> and no part with text or a function call,
  it is removed from \<open>allMessages\<close>. Otherwise it stays in its slot, every tool of it whose
  status is \<open>streaming\<close>, \<open>queued\<close>, \<open>awaiting_approval\<close>, \<open>executing\<close> or \<open>awaiting_apply\<close>
  becomes \<open>error\<close>, tools in \<open>success\<close> or \<open>error\<close> are unchanged, and \<open>localOnly\<close> becomes
  false. In both cases \<open>streamingMessageId\<close> becomes null and \<open>isStreaming\<close> and
  \<open>isWaitingForResponse\<close> become false. ``No tools'' is the absent \<open>tools\<close> field of the data
  model; a part carries text when its text is a non-empty string.
\<close>

theorem handleCancelled_spec:
  assumes "cancelledTarget (streamingMessageId s) (allMessages s) = Some i"
  shows "i < length (allMessages s) \<and>
    (m_content (allMessages s ! i) = [] \<and> m_tools (allMessages s ! i) = None \<and>
       (\<forall>ps. m_parts (allMessages s ! i) = Some ps \<longrightarrow>
          (\<forall>p \<in> set ps. \<not> truthy (p_text p) \<and> p_functionCall p = None)) \<longrightarrow>
       allMessages (handleCancelled c s) =
         take i (allMessages s) @ drop (Suc i) (allMessages s)) \<and>
    (\<not> (m_content (allMessages s ! i) = [] \<and> m_tools (allMessages s ! i) = None \<and>
        (\<forall>ps. m_parts (allMessages s ! i) = Some ps \<longrightarrow>
          (\<forall>p \<in> set ps. \<not> truthy (p_text p) \<and> p_functionCall p = None))) \<longrightarrow>
       length (allMessages (handleCancelled c s)) = length (allMessages s) \<and>
       (\<forall>j < length (allMessages s). j \<noteq> i \<longrightarrow>
          allMessages (handleCancelled c s) ! j = allMessages s ! j) \<and>
       m_id (allMessages (handleCancelled c s) ! i) = m_id (allMessages s ! i) \<and>
       m_content (allMessages (handleCancelled c s) ! i) = m_content (allMessages s ! i) \<and>
       m_parts (allMessages (handleCancelled c s) ! i) = m_parts (allMessages s ! i) \<and>
       m_localOnly (allMessages (handleCancelled c s) ! i) = Some False \<and>
       m_tools (allMessages (handleCancelled c s) ! i) =
         map_option
           (map (\<lambda>t. if t_status t \<in> {Streaming, Queued, Awaiting_approval, Executing, Awaiting_apply}
                      then t\<lparr>t_status := Error\<rparr> else t))
           (m_tools (allMessages s ! i))) \<and>
    streamingMessageId (handleCancelled c s) = None \<and>
    isStreaming (handleCancelled c s) = False \<and>
    isWaitingForResponse (handleCancelled c s) = False"
proof -
  from cancelledTarget_Some [OF assms] have il: "i < length (allMessages s)" .
  have emp: "isEmptyPlaceholder (allMessages s ! i) \<longleftrightarrow>
     (m_content (allMessages s ! i) = [] \<and> m_tools (allMessages s ! i) = None \<and>
       (\<forall>ps. m_parts (allMessages s ! i) = Some ps \<longrightarrow>
          (\<forall>p \<in> set ps. \<not> truthy (p_text p) \<and> p_functionCall p = None)))"
    by (auto simp: isEmptyPlaceholder_def hasPartsContent_def split: option.splits)
  have st: "cancelledStatus =
     (\<lambda>t. if t_status t \<in> {Streaming, Queued, Awaiting_approval, Executing, Awaiting_apply}
                      then t\<lparr>t_status := Error\<rparr> else t)"
    by (rule ext) (simp add: cancelledStatus_def)
  have rem: "isEmptyPlaceholder (allMessages s ! i) \<Longrightarrow>
       allMessages (handleCancelled c s) = take i (allMessages s) @ drop (Suc i) (allMessages s)"
    using assms by (simp add: handleCancelled_def cancelledReplace_def Let_def removeAt_take_drop)
  have keep: "\<not> isEmptyPlaceholder (allMessages s ! i) \<Longrightarrow>
       allMessages (handleCancelled c s) =
         (allMessages s)[i := cancelledMessage c (allMessages s ! i)]"
    using assms il
    by (simp add: handleCancelled_def cancelledReplace_def Let_def replaceAt_list_update)
  have flags: "streamingMessageId (handleCancelled c s) = None \<and>
    isStreaming (handleCancelled c s) = False \<and>
    isWaitingForResponse (handleCancelled c s) = False"
    by (simp add: handleCancelled_def Let_def)
  show ?thesis
    using il rem keep flags unfolding emp [symmetric]
    by (auto simp: cancelledMessage_def st)
qed

text \<open>
  C7. \<open>handleError\<close> sets \<open>error\<close> to the event's error, or to the pair
  \<open>STREAM_ERROR\<close> / \<open>Stream error\<close> when the event carries none. If \<open>streamingMessageId\<close>
  names a message with empty content, no \<open>tools\<close> and no part with text or a function
  call, the messages with that id are filtered out of \<open>allMessages\<close>. Afterwards
  \<open>streamingMessageId\<close> is null and \<open>isStreaming\<close> and \<open>isWaitingForResponse\<close> are false.
  The store's \<open>streamingMessageId\<close> is null or a generated id, which is not the empty
  string (the handler's test \<^verbatim>\<open>if (state.streamingMessageId.value)\<close> takes the empty
  string for null).
\<close>

theorem handleError_spec:
  assumes "streamingMessageId s \<noteq> Some []"
  shows "error (handleError c s) =
      Some (case sc_error c of
              Some e \<Rightarrow> e
            | None \<Rightarrow> \<lparr> se_code = ''STREAM_ERROR'', se_message = ''Stream error'' \<rparr>) \<and>
    (\<forall>sid m. streamingMessageId s = Some sid \<and>
        find (\<lambda>m. m_id m = sid) (allMessages s) = Some m \<and>
        m_content m = [] \<and> m_tools m = None \<and>
        (\<forall>ps. m_parts m = Some ps \<longrightarrow>
           (\<forall>p \<in> set ps. \<not> truthy (p_text p) \<and> p_functionCall p = None)) \<longrightarrow>
        allMessages (handleError c s) = filter (\<lambda>m. m_id m \<noteq> sid) (allMessages s) \<and>
        m \<notin> set (allMessages (handleError c s))) \<and>
    streamingMessageId (handleError c s) = None \<and>
    isStreaming (handleError c s) = False \<and>
    isWaitingForResponse (handleError c s) = False"
proof (intro conjI allI impI)
  show "error (handleError c s) =
      Some (case sc_error c of
              Some e \<Rightarrow> e
            | None \<Rightarrow> \<lparr> se_code = ''STREAM_ERROR'', se_message = ''Stream error'' \<rparr>)"
    by (simp add: handleError_def Let_def defaultStreamError_def split: option.splits)
next
  show "streamingMessageId (handleError c s) = None"
    using assms by (cases "streamingMessageId s") (simp_all add: handleError_def Let_def truthy_def)
next
  show "isStreaming (handleError c s) = False"
    by (simp add: handleError_def Let_def)
next
  show "isWaitingForResponse (handleError c s) = False"
    by (simp add: handleError_def Let_def)
next
  fix sid m
  assume a: "streamingMessageId s = Some sid \<and>
        find (\<lambda>m. m_id m = sid) (allMessages s) = Some m \<and>
        m_content m = [] \<and> m_tools m = None \<and>
        (\<forall>ps. m_parts m = Some ps \<longrightarrow>
           (\<forall>p \<in> set ps. \<not> truthy (p_text p) \<and> p_functionCall p = None))"
  then have emp: "isEmptyPlaceholder m"
    by (auto simp: isEmptyPlaceholder_def hasPartsContent_def split: option.splits)
  from a assms have tr: "truthy (streamingMessageId s)" by (simp add: truthy_def)
  from a have mid: "m_id m = sid" by (auto simp: find_Some_iff)
  show "allMessages (handleError c s) = filter (\<lambda>m. m_id m \<noteq> sid) (allMessages s)"
    using a emp tr by (simp add: handleError_def Let_def)
  then show "m \<notin> set (allMessages (handleError c s))"
    using mid by simp
qed

theorem handleCancelled_spec_witness:
  "cancelledTarget (streamingMessageId exPlaceholderState) (allMessages exPlaceholderState) = Some 1 \<and>
   allMessages (handleCancelled exChunk exPlaceholderState) = [exMessage ''u1'' User ''hi'' None] \<and>
   cancelledTarget (streamingMessageId exRunningState) (allMessages exRunningState) = Some 1 \<and>
   m_tools (allMessages (handleCancelled exChunk exRunningState) ! 1) =
     Some [exTool ''t1'' Error, exTool ''t2'' Success] \<and>
   m_localOnly (allMessages (handleCancelled exChunk exRunningState) ! 1) = Some False \<and>
   streamingMessageId (handleCancelled exChunk exRunningState) = None"
proof -
  have a: "cancelledTarget (streamingMessageId exPlaceholderState) (allMessages exPlaceholderState) = Some 1"
    and b: "cancelledTarget (streamingMessageId exRunningState) (allMessages exRunningState) = Some 1"
    by (simp_all add: exPlaceholderState_def exRunningState_def ex_defs cancelledTarget_def truthy_def)
  from handleCancelled_spec [OF a, of exChunk] handleCancelled_spec [OF b, of exChunk] a b
  show ?thesis
    by (simp add: exPlaceholderState_def exRunningState_def ex_defs)
qed

theorem handleError_spec_witness:
  "streamingMessageId exPlaceholderState \<noteq> Some [] \<and>
   error (handleError exChunk exPlaceholderState) =
     Some \<lparr> se_code = ''STREAM_ERROR'', se_message = ''Stream error'' \<rparr> \<and>
   find (\<lambda>m. m_id m = ''a1'') (allMessages exPlaceholderState) = Some (exMessage ''a1'' Assistant [] None) \<and>
   allMessages (handleError exChunk exPlaceholderState) = [exMessage ''u1'' User ''hi'' None] \<and>
   streamingMessageId (handleError exChunk exPlaceholderState) = None"
proof -
  have a: "streamingMessageId exPlaceholderState \<noteq> Some []"
    by (simp add: exPlaceholderState_def ex_defs)
  from handleError_spec [OF a, of exChunk] a
  show ?thesis
    by (simp add: exPlaceholderState_def ex_defs)
qed

section \<open>\<^verbatim>\<open>handleToolsExecuting\<close>\<close>

lemma jsmap_has_iff: "jsmap_has m k \<longleftrightarrow> k \<in> fst ` set m"
  by (induction m) auto

lemma jsmap_set_new: "\<not> jsmap_has m k \<Longrightarrow> jsmap_set m k v = m @ [(k, v)]"
  by (induction m) auto

lemma foldl_set_distinct:
  assumes "distinct (map key ts)" and "\<forall>t \<in> set ts. key t \<notin> fst ` set m"
  shows "foldl (\<lambda>m t. jsmap_set m (key t) t) m ts = m @ map (\<lambda>t. (key t, t)) ts"
  using assms
proof (induction ts arbitrary: m)
  case Nil
  show ?case by simp
next
  case (Cons t ts)
  have new: "jsmap_set m (key t) t = m @ [(key t, t)]"
    using Cons.prems(2) by (simp add: jsmap_set_new jsmap_has_iff)
  have "foldl (\<lambda>m t. jsmap_set m (key t) t) (m @ [(key t, t)]) ts =
        (m @ [(key t, t)]) @ map (\<lambda>t. (key t, t)) ts"
    using Cons.prems by (intro Cons.IH) (auto simp: image_iff)
  with new show ?case by simp
qed

lemma foldl_add_missing:
  assumes "distinct (map key ts)"
  shows "foldl (\<lambda>m t. if \<not> jsmap_has m (key t) then jsmap_set m (key t) t else m) m ts =
         m @ map (\<lambda>t. (key t, t)) (filter (\<lambda>t. key t \<notin> fst ` set m) ts)"
  using assms
proof (induction ts arbitrary: m)
  case Nil
  show ?case by simp
next
  case (Cons t ts)
  from Cons.prems have d: "distinct (map key ts)" and nt: "key t \<notin> key ` set ts" by auto
  show ?case
  proof (cases "jsmap_has m (key t)")
    case True
    with Cons.IH [OF d, of m] show ?thesis by (simp add: jsmap_has_iff)
  next
    case False
    have f: "filter (\<lambda>u. key u \<notin> fst ` set (m @ [(key t, t)])) ts =
             filter (\<lambda>u. key u \<notin> fst ` set m) ts"
      using nt by (intro filter_cong [OF refl]) (auto simp: image_iff)
    have "foldl (\<lambda>m t. if \<not> jsmap_has m (key t) then jsmap_set m (key t) t else m)
            (m @ [(key t, t)]) ts =
          (m @ [(key t, t)]) @ map (\<lambda>t. (key t, t)) (filter (\<lambda>u. key u \<notin> fst ` set m) ts)"
      using Cons.IH [OF d, of "m @ [(key t, t)]"] unfolding f .
    with False show ?thesis
      by (simp add: jsmap_set_new [OF False] jsmap_has_iff)
  qed
qed

text \<open>With distinct tool ids on both sides, the merge is the old tools followed by the
  rebuilt tools whose ids the old ones lack.\<close>

lemma mergeTools_distinct:
  assumes "a \<noteq> []" and "b \<noteq> []" and "distinct (map t_id a)" and "distinct (map t_id b)"
  shows "mergeTools (Some a) (Some b) = a @ filter (\<lambda>t. t_id t \<notin> t_id ` set a) b"
proof -
  have 1: "foldl (\<lambda>m t. jsmap_set m (t_id t) t) [] a = map (\<lambda>t. (t_id t, t)) a"
    using foldl_set_distinct [OF assms(3), of "[]"] by simp
  have 2: "fst ` set (map (\<lambda>t. (t_id t, t)) a) = t_id ` set a" by force
  have "foldl (\<lambda>m t. if \<not> jsmap_has m (t_id t) then jsmap_set m (t_id t) t else m)
          (map (\<lambda>t. (t_id t, t)) a) b =
        map (\<lambda>t. (t_id t, t)) a @
          map (\<lambda>t. (t_id t, t)) (filter (\<lambda>t. t_id t \<notin> t_id ` set a) b)"
    using foldl_add_missing [OF assms(4), of "map (\<lambda>t. (t_id t, t)) a"] unfolding 2 .
  with assms(1,2) show ?thesis
    by (simp add: mergeTools_def Let_def 1 comp_def)
qed

lemma tools_rebuildMerged:
  "m_tools (rebuildMerged col ct m) =
     (let merged = mergeTools (m_tools m) (m_tools (contentToMessage col (Some ct) (m_id m)))
      in if merged = [] then None else Some merged)"
  by (simp add: rebuildMerged_def Let_def split: option.splits)

lemma tools_executingMessage:
  "m_tools (executingMessage col c ct m) =
     map_option (map (executingStatus (case sc_pendingToolCalls c of None \<Rightarrow> [] | Some ps \<Rightarrow> ps)))
       (m_tools (rebuildMerged col ct m))"
  by (simp add: executingMessage_def Let_def split: option.splits)

lemma executingStatus_rank:
  "executingStatus pending t =
     t\<lparr>t_status :=
        (case map pc_id pending of
           [] \<Rightarrow> if t_status t = Streaming then Queued else t_status t
         | first # later \<Rightarrow>
             if first \<noteq> [] \<and> t_id t = first then Executing
             else if t_id t \<in> set later then Queued
             else if t_status t = Streaming then Queued
             else t_status t)\<rparr>"
  by (cases pending) (auto simp: executingStatus_def Let_def truthy_def drop_Suc)

text \<open>
  C4. \<open>handleToolsExecuting\<close> always sets \<open>isStreaming\<close>. When the event carries content
  and \<open>streamingMessageId\<close> matches a message, the tools of that message afterwards are the
  merged tools (the old tools and those of the rebuilt message), re-statused by rank: the
  tool whose id is the first id of \<open>pendingToolCalls\<close> (an id, that is a non-empty string)
  becomes \<open>executing\<close>, a tool whose id is later in the list becomes \<open>queued\<close>, any other
  tool still in \<open>streaming\<close> becomes \<open>queued\<close>, and all others keep their status. The
  \<open>tools\<close> field is absent when there are no merged tools.
\<close>

theorem handleToolsExecuting_spec:
  "isStreaming (handleToolsExecuting col c s) = True \<and>
   (\<forall>i ct. findIndex (\<lambda>m. Some (m_id m) = streamingMessageId s) (allMessages s) = Some i \<and>
       sc_content c = Some ct \<longrightarrow>
       (let message = allMessages s ! i;
            merged = mergeTools (m_tools message)
                       (m_tools (contentToMessage col (Some ct) (m_id message)));
            pendingIds = (case sc_pendingToolCalls c of None \<Rightarrow> [] | Some ps \<Rightarrow> map pc_id ps)
        in length (allMessages (handleToolsExecuting col c s)) = length (allMessages s) \<and>
           m_tools (allMessages (handleToolsExecuting col c s) ! i) =
             (if merged = [] then None
              else Some (map (\<lambda>t. t\<lparr>t_status :=
                     (case pendingIds of
                        [] \<Rightarrow> if t_status t = Streaming then Queued else t_status t
                      | first # later \<Rightarrow>
                          if first \<noteq> [] \<and> t_id t = first then Executing
                          else if t_id t \<in> set later then Queued
                          else if t_status t = Streaming then Queued
                          else t_status t)\<rparr>) merged))))"
proof (intro conjI allI impI)
  show "isStreaming (handleToolsExecuting col c s) = True"
    by (simp add: handleToolsExecuting_def executingReplace_def Let_def split: option.splits)
next
  fix i ct
  assume a: "findIndex (\<lambda>m. Some (m_id m) = streamingMessageId s) (allMessages s) = Some i \<and>
       sc_content c = Some ct"
  then have il: "i < length (allMessages s)" by (auto dest: findIndex_Some)
  have upd: "allMessages (handleToolsExecuting col c s) =
     (allMessages s)[i := executingMessage col c ct (allMessages s ! i)]"
    using a il
    by (simp add: handleToolsExecuting_def executingReplace_def Let_def replaceAt_list_update)
  have st: "executingStatus (case sc_pendingToolCalls c of None \<Rightarrow> [] | Some ps \<Rightarrow> ps) =
     (\<lambda>t. t\<lparr>t_status :=
                     (case (case sc_pendingToolCalls c of None \<Rightarrow> [] | Some ps \<Rightarrow> map pc_id ps) of
                        [] \<Rightarrow> if t_status t = Streaming then Queued else t_status t
                      | first # later \<Rightarrow>
                          if first \<noteq> [] \<and> t_id t = first then Executing
                          else if t_id t \<in> set later then Queued
                          else if t_status t = Streaming then Queued
                          else t_status t)\<rparr>)"
    by (rule ext) (simp add: executingStatus_rank split: option.splits)
  show "let message = allMessages s ! i;
            merged = mergeTools (m_tools message)
                       (m_tools (contentToMessage col (Some ct) (m_id message)));
            pendingIds = (case sc_pendingToolCalls c of None \<Rightarrow> [] | Some ps \<Rightarrow> map pc_id ps)
        in length (allMessages (handleToolsExecuting col c s)) = length (allMessages s) \<and>
           m_tools (allMessages (handleToolsExecuting col c s) ! i) =
             (if merged = [] then None
              else Some (map (\<lambda>t. t\<lparr>t_status :=
                     (case pendingIds of
                        [] \<Rightarrow> if t_status t = Streaming then Queued else t_status t
                      | first # later \<Rightarrow>
                          if first \<noteq> [] \<and> t_id t = first then Executing
                          else if t_id t \<in> set later then Queued
                          else if t_status t = Streaming then Queued
                          else t_status t)\<rparr>) merged))"
    unfolding upd Let_def using il
    by (simp add: tools_executingMessage tools_rebuildMerged st Let_def)
qed

theorem handleToolsExecuting_spec_witness:
  "findIndex (\<lambda>m. Some (m_id m) = streamingMessageId exStreamingTools)
     (allMessages exStreamingTools) = Some 0 \<and>
   sc_content exExecutingEvent = Some exContent \<and>
   isStreaming (handleToolsExecuting exCol exExecutingEvent exStreamingTools) \<and>
   m_tools (allMessages (handleToolsExecuting exCol exExecutingEvent exStreamingTools) ! 0) =
     Some [exTool ''t1'' Executing, exTool ''t2'' Queued, exTool ''t3'' Queued,
           exTool ''t4'' Success] \<and>
   m_tools (allMessages (handleToolsExecuting exColTools exExecutingEvent exStreamingTools) ! 0) =
     Some [exTool ''t1'' Executing, exTool ''t2'' Queued, exTool ''t3'' Queued,
           exTool ''t4'' Success, exTool ''t5'' Success]"
proof -
  have a: "findIndex (\<lambda>m. Some (m_id m) = streamingMessageId exStreamingTools)
     (allMessages exStreamingTools) = Some 0"
    and b: "sc_content exExecutingEvent = Some exContent"
    by (simp_all add: exStreamingTools_def exExecutingEvent_def ex_defs)
  from handleToolsExecuting_spec [of exCol exExecutingEvent exStreamingTools]
       handleToolsExecuting_spec [of exColTools exExecutingEvent exStreamingTools] a b
  show ?thesis
    by (simp add: exStreamingTools_def exExecutingEvent_def ex_defs exCol_def exColTools_def
          mergeTools_def Let_def)
qed

section \<open>\<^verbatim>\<open>handleToolIteration\<close>\<close>

lemma addCheckpoints_eq:
  "addCheckpoints c s =
     s\<lparr>checkpoints := checkpoints s @ (case sc_checkpoints c of None \<Rightarrow> [] | Some cps \<Rightarrow> cps)\<rparr>"
proof -
  have "foldl (\<lambda>s cp. addCheckpoint cp s) s cps = s\<lparr>checkpoints := checkpoints s @ cps\<rparr>" for cps
    by (induction cps arbitrary: s) (simp_all add: addCheckpoint_def)
  then show ?thesis by (simp add: addCheckpoints_def split: option.splits)
qed

lemma appendFunctionResponses_eq:
  "appendFunctionResponses rid rt c s =
     s\<lparr>allMessages := allMessages s @
        (case sc_toolResults c of
           None \<Rightarrow> []
         | Some rs \<Rightarrow>
             let ps = newResponseParts (existingResponseIds (allMessages s)) rs
             in if ps = [] then [] else [responseMessage rid rt ps])\<rparr>"
  by (cases "sc_toolResults c")
     (auto simp: appendFunctionResponses_def Let_def newResponseParts_def)

lemma set_cancelledToolIds:
  "set (cancelledToolIds c) =
     {k. k \<noteq> [] \<and> (\<exists>r \<in> set (case sc_toolResults c of None \<Rightarrow> [] | Some rs \<Rightarrow> rs).
                       r_id r = Some k \<and> tr_cancelled (r_result r))}"
proof (cases "sc_toolResults c")
  case None
  then show ?thesis by (simp add: cancelledToolIds_def)
next
  case (Some rs)
  have "set (concat (map (\<lambda>r. case r_id r of None \<Rightarrow> []
          | Some i \<Rightarrow> if tr_cancelled (r_result r) \<and> i \<noteq> [] then [i] else []) rs)) =
        {k. k \<noteq> [] \<and> (\<exists>r \<in> set rs. r_id r = Some k \<and> tr_cancelled (r_result r))}"
    by (induction rs) (auto split: option.splits)
  with Some show ?thesis by (simp add: cancelledToolIds_def)
qed

lemma set_rejectedToolIds:
  "set (rejectedToolIds c) =
     {k. k \<noteq> [] \<and> (\<exists>r \<in> set (case sc_toolResults c of None \<Rightarrow> [] | Some rs \<Rightarrow> rs).
                       r_id r = Some k \<and> tr_rejected (r_result r))}"
proof (cases "sc_toolResults c")
  case None
  then show ?thesis by (simp add: rejectedToolIds_def)
next
  case (Some rs)
  have "set (concat (map (\<lambda>r. case r_id r of None \<Rightarrow> []
          | Some i \<Rightarrow> if tr_rejected (r_result r) \<and> i \<noteq> [] then [i] else []) rs)) =
        {k. k \<noteq> [] \<and> (\<exists>r \<in> set rs. r_id r = Some k \<and> tr_rejected (r_result r))}"
    by (induction rs) (auto split: option.splits)
  with Some show ?thesis by (simp add: rejectedToolIds_def)
qed

lemma hasCancelledTools_iff:
  "hasCancelledTools c \<longleftrightarrow>
     (\<exists>r \<in> set (case sc_toolResults c of None \<Rightarrow> [] | Some rs \<Rightarrow> rs).
        tr_cancelled (r_result r) \<and> truthy (r_id r))"
proof -
  have "hasCancelledTools c \<longleftrightarrow> set (cancelledToolIds c) \<noteq> {}"
    by (simp add: hasCancelledTools_def)
  also have "\<dots> \<longleftrightarrow> (\<exists>k. k \<in> set (cancelledToolIds c))"
    by (cases "cancelledToolIds c") auto
  also have "\<dots> \<longleftrightarrow> (\<exists>r \<in> set (case sc_toolResults c of None \<Rightarrow> [] | Some rs \<Rightarrow> rs).
        tr_cancelled (r_result r) \<and> truthy (r_id r))"
    unfolding set_cancelledToolIds
    by (cases "sc_toolResults c") (fastforce simp: truthy_def split: option.splits)+
  finally show ?thesis .
qed

lemma tools_iterationMessage:
  "m_tools (iterationMessage col c m) = Some ts \<Longrightarrow> t \<in> set ts \<Longrightarrow>
     t_status t =
       (if t_id t \<in> set (cancelledToolIds c) \<or> t_id t \<in> set (rejectedToolIds c)
        then Error else Success)"
  by (auto simp: iterationMessage_def Let_def split: option.splits if_splits)

lemma iterationReplace_eq:
  assumes "findIndex (\<lambda>m. Some (m_id m) = streamingMessageId s) (allMessages s) = Some i"
  shows "iterationReplace col c s =
           s\<lparr>allMessages := (allMessages s)[i := iterationMessage col c (allMessages s ! i)]\<rparr>"
  using assms findIndex_Some [OF assms]
  by (simp add: iterationReplace_def Let_def replaceAt_list_update)

text \<open>
  C2, as the code has it. For every tool-iteration event applied when \<open>streamingMessageId\<close>
  matches a message: each tool of that message whose id is the non-empty id of a result
  flagged cancelled or rejected ends with status \<open>error\<close>, and every other tool ends with
  status \<open>success\<close>. If at least one result that carries a non-empty id is flagged
  cancelled, \<open>streamingMessageId\<close> becomes null, \<open>isStreaming\<close> and \<open>isWaitingForResponse\<close>
  become false, and nothing but the hidden function-response message, if any, is appended.
  Otherwise a new empty assistant message with \<open>streaming = true\<close> is appended last,
  \<open>streamingMessageId\<close> is set to its id, and both flags become true.
\<close>

theorem handleToolIteration_spec:
  assumes "findIndex (\<lambda>m. Some (m_id m) = streamingMessageId s) (allMessages s) = Some i"
  shows
    "let s' = handleToolIteration col rid rt aid at c s;
         results = (case sc_toolResults c of None \<Rightarrow> [] | Some rs \<Rightarrow> rs);
         cancelledWithId = (\<exists>r \<in> set results. tr_cancelled (r_result r) \<and> truthy (r_id r));
         placeholder = newAssistantMessage col aid at
     in (\<exists>m' resp.
           allMessages s' =
             (allMessages s)[i := m'] @ resp @ (if cancelledWithId then [] else [placeholder]) \<and>
           (resp = [] \<or> (\<exists>ps. resp = [responseMessage rid rt ps])) \<and>
           (\<forall>ts. m_tools m' = Some ts \<longrightarrow>
              (\<forall>t \<in> set ts.
                 t_status t =
                   (if t_id t \<noteq> [] \<and>
                       (\<exists>r \<in> set results. r_id r = Some (t_id t) \<and>
                          (tr_cancelled (r_result r) \<or> tr_rejected (r_result r)))
                    then Error else Success)))) \<and>
        (cancelledWithId \<longrightarrow>
           streamingMessageId s' = None \<and> isStreaming s' = False \<and>
           isWaitingForResponse s' = False) \<and>
        (\<not> cancelledWithId \<longrightarrow>
           streamingMessageId s' = Some aid \<and> isStreaming s' = True \<and>
           isWaitingForResponse s' = True \<and>
           m_id placeholder = aid \<and> m_role placeholder = Assistant \<and>
           m_content placeholder = [] \<and> m_streaming placeholder = Some True \<and>
           m_parts placeholder = None \<and> m_tools placeholder = None)"
proof -
  let ?results = "case sc_toolResults c of None \<Rightarrow> [] | Some rs \<Rightarrow> rs"
  let ?m' = "iterationMessage col c (allMessages s ! i)"
  let ?s1 = "iterationReplace col c s"
  let ?resp = "case sc_toolResults c of
           None \<Rightarrow> []
         | Some rs \<Rightarrow>
             let ps = newResponseParts (existingResponseIds (allMessages ?s1)) rs
             in if ps = [] then [] else [responseMessage rid rt ps]"
  have s1: "allMessages ?s1 = (allMessages s)[i := ?m']"
    by (simp add: iterationReplace_eq [OF assms])
  have resp: "?resp = [] \<or> (\<exists>ps. ?resp = [responseMessage rid rt ps])"
    by (auto simp: Let_def split: option.splits)
  have tools: "\<forall>ts. m_tools ?m' = Some ts \<longrightarrow>
              (\<forall>t \<in> set ts.
                 t_status t =
                   (if t_id t \<noteq> [] \<and>
                       (\<exists>r \<in> set ?results. r_id r = Some (t_id t) \<and>
                          (tr_cancelled (r_result r) \<or> tr_rejected (r_result r)))
                    then Error else Success))"
  proof (intro allI impI ballI)
    fix ts t
    assume "m_tools ?m' = Some ts" and "t \<in> set ts"
    then have "t_status t =
       (if t_id t \<in> set (cancelledToolIds c) \<or> t_id t \<in> set (rejectedToolIds c)
        then Error else Success)"
      by (rule tools_iterationMessage)
    then show "t_status t =
                   (if t_id t \<noteq> [] \<and>
                       (\<exists>r \<in> set ?results. r_id r = Some (t_id t) \<and>
                          (tr_cancelled (r_result r) \<or> tr_rejected (r_result r)))
                    then Error else Success)"
      unfolding set_cancelledToolIds set_rejectedToolIds by auto
  qed
  have msgs: "allMessages (handleToolIteration col rid rt aid at c s) =
      (allMessages s)[i := ?m'] @ ?resp @
        (if hasCancelledTools c then [] else [newAssistantMessage col aid at])"
    by (simp add: handleToolIteration_def Let_def addCheckpoints_eq
          appendFunctionResponses_eq [of rid rt c ?s1] s1)
  have flags1: "hasCancelledTools c \<Longrightarrow>
      streamingMessageId (handleToolIteration col rid rt aid at c s) = None \<and>
      isStreaming (handleToolIteration col rid rt aid at c s) = False \<and>
      isWaitingForResponse (handleToolIteration col rid rt aid at c s) = False"
    by (simp add: handleToolIteration_def Let_def)
  have flags2: "\<not> hasCancelledTools c \<Longrightarrow>
      streamingMessageId (handleToolIteration col rid rt aid at c s) = Some aid \<and>
      isStreaming (handleToolIteration col rid rt aid at c s) = True \<and>
      isWaitingForResponse (handleToolIteration col rid rt aid at c s) = True"
    by (simp add: handleToolIteration_def Let_def)
  have ph: "m_id (newAssistantMessage col aid at) = aid \<and>
      m_role (newAssistantMessage col aid at) = Assistant \<and>
      m_content (newAssistantMessage col aid at) = [] \<and>
      m_streaming (newAssistantMessage col aid at) = Some True \<and>
      m_parts (newAssistantMessage col aid at) = None \<and>
      m_tools (newAssistantMessage col aid at) = None"
    by (simp add: newAssistantMessage_def)
  have ex: "\<exists>m' resp.
           allMessages (handleToolIteration col rid rt aid at c s) =
             (allMessages s)[i := m'] @ resp @
               (if hasCancelledTools c then [] else [newAssistantMessage col aid at]) \<and>
           (resp = [] \<or> (\<exists>ps. resp = [responseMessage rid rt ps])) \<and>
           (\<forall>ts. m_tools m' = Some ts \<longrightarrow>
              (\<forall>t \<in> set ts.
                 t_status t =
                   (if t_id t \<noteq> [] \<and>
                       (\<exists>r \<in> set ?results. r_id r = Some (t_id t) \<and>
                          (tr_cancelled (r_result r) \<or> tr_rejected (r_result r)))
                    then Error else Success)))"
    using msgs resp tools by blast
  show ?thesis
    unfolding Let_def hasCancelledTools_iff [symmetric]
    using ex flags1 flags2 ph by simp
qed

lemmas iteration_defs = handleToolIteration_def iterationReplace_def iterationMessage_def
  appendFunctionResponses_def addCheckpoints_def hasCancelledTools_def cancelledToolIds_def
  rejectedToolIds_def existingResponseIds_def messageResponseIds_def newResponseParts_def
  spreadMessage_def existingModelVersionOf_def restoreMetadata_def replaceAt_def truthy_def
  Let_def

text \<open>
  A tool-iteration event whose only result is flagged cancelled but carries no id: the
  handler does not end the turn. It appends the assistant placeholder, makes it the
  streaming message and sets both flags.
\<close>

theorem handleToolIteration_noid_counterexample:
  "streamingMessageId exRunningState = Some ''a1'' \<and>
   m_id (allMessages exRunningState ! 1) = ''a1'' \<and>
   sc_toolResults (exIterationEvent [exResult None True]) = Some [exResult None True] \<and>
   tr_cancelled (r_result (exResult None True)) \<and>
   streamingMessageId
     (handleToolIteration exCol ''r1'' 10 ''a2'' 11 (exIterationEvent [exResult None True])
        exRunningState) = Some ''a2'' \<and>
   isStreaming
     (handleToolIteration exCol ''r1'' 10 ''a2'' 11 (exIterationEvent [exResult None True])
        exRunningState) \<and>
   isWaitingForResponse
     (handleToolIteration exCol ''r1'' 10 ''a2'' 11 (exIterationEvent [exResult None True])
        exRunningState) \<and>
   last (allMessages
     (handleToolIteration exCol ''r1'' 10 ''a2'' 11 (exIterationEvent [exResult None True])
        exRunningState)) = newAssistantMessage exCol ''a2'' 11"
  by (simp add: exRunningState_def exResult_def exIterationEvent_def ex_defs exCol_def
        iteration_defs)

theorem handleToolIteration_spec_witness:
  "findIndex (\<lambda>m. Some (m_id m) = streamingMessageId exRunningState)
     (allMessages exRunningState) = Some 1 \<and>
   m_tools (allMessages
     (handleToolIteration exCol ''r1'' 10 ''a2'' 11
        (exIterationEvent [exResult (Some ''t1'') True]) exRunningState) ! 1) =
     Some [exTool ''t1'' Error, exTool ''t2'' Success] \<and>
   length (allMessages
     (handleToolIteration exCol ''r1'' 10 ''a2'' 11
        (exIterationEvent [exResult (Some ''t1'') True]) exRunningState)) = 3 \<and>
   streamingMessageId
     (handleToolIteration exCol ''r1'' 10 ''a2'' 11
        (exIterationEvent [exResult (Some ''t1'') True]) exRunningState) = None \<and>
   streamingMessageId
     (handleToolIteration exCol ''r1'' 10 ''a2'' 11
        (exIterationEvent [exResult (Some ''t1'') False]) exRunningState) = Some ''a2'' \<and>
   last (allMessages
     (handleToolIteration exCol ''r1'' 10 ''a2'' 11
        (exIterationEvent [exResult (Some ''t1'') False]) exRunningState)) =
     newAssistantMessage exCol ''a2'' 11"
proof -
  have a: "findIndex (\<lambda>m. Some (m_id m) = streamingMessageId exRunningState)
     (allMessages exRunningState) = Some 1"
    by (simp add: exRunningState_def ex_defs)
  from handleToolIteration_spec [OF a, of exCol "''r1''" 10 "''a2''" 11
         "exIterationEvent [exResult (Some ''t1'') True]"]
       handleToolIteration_spec [OF a, of exCol "''r1''" 10 "''a2''" 11
         "exIterationEvent [exResult (Some ''t1'') False]"] a
  show ?thesis
    by (simp add: exRunningState_def exResult_def exIterationEvent_def ex_defs exCol_def
        iteration_defs)
qed

section \<open>Hidden function-response messages are not duplicated\<close>

lemma existingResponseIds_append:
  "existingResponseIds (xs @ ys) = existingResponseIds xs @ existingResponseIds ys"
  by (simp add: existingResponseIds_def)

lemma existingResponseIds_update:
  assumes "i < length xs" and "messageResponseIds (xs ! i) = []" and "messageResponseIds m = []"
  shows "existingResponseIds (xs[i := m]) = existingResponseIds xs"
proof -
  have "map messageResponseIds (xs[i := m]) = map messageResponseIds xs"
    using assms by (simp add: map_update list_update_same_conv)
  then show ?thesis by (simp add: existingResponseIds_def)
qed

lemma ids_newResponseParts:
  "concat (map partResponseIds (newResponseParts E rs)) = filter (\<lambda>k. k \<notin> set E) (resultIds rs)"
  by (induction rs)
     (auto simp: newResponseParts_def resultIds_def partResponseIds_def responsePart_def
           split: option.splits)

lemma ids_responseMessage:
  "messageResponseIds (responseMessage rid rt ps) = concat (map partResponseIds ps)"
  by (simp add: messageResponseIds_def responseMessage_def)

lemma count_resultIds:
  "k \<noteq> [] \<Longrightarrow> count_list (resultIds rs) k = count_list (map r_id rs) (Some k)"
  by (induction rs) (auto simp: resultIds_def split: option.splits)

lemma count_list_filter_notin:
  "count_list (filter (\<lambda>k. k \<notin> set E) xs) k = (if k \<in> set E then 0 else count_list xs k)"
  by (induction xs) auto

text \<open>The ids that the function-response block adds to the scan.\<close>

lemma ids_appendFunctionResponses:
  "existingResponseIds (allMessages (appendFunctionResponses rid rt c s)) =
     existingResponseIds (allMessages s) @
     filter (\<lambda>k. k \<notin> set (existingResponseIds (allMessages s)))
       (resultIds (case sc_toolResults c of None \<Rightarrow> [] | Some rs \<Rightarrow> rs))"
proof (cases "sc_toolResults c")
  case None
  then show ?thesis by (simp add: appendFunctionResponses_def resultIds_def)
next
  case (Some rs)
  let ?E = "existingResponseIds (allMessages s)"
  show ?thesis
  proof (cases "newResponseParts ?E rs = []")
    case True
    then have "filter (\<lambda>k. k \<notin> set ?E) (resultIds rs) = []"
      using ids_newResponseParts [of ?E rs] by simp
    with True Some show ?thesis
      by (simp add: appendFunctionResponses_eq)
  next
    case False
    with Some show ?thesis
      by (simp add: appendFunctionResponses_eq existingResponseIds_append Let_def)
         (simp add: existingResponseIds_def ids_responseMessage ids_newResponseParts)
  qed
qed

lemma count_appendFunctionResponses:
  assumes "k \<noteq> []"
  shows "count_list (existingResponseIds (allMessages (appendFunctionResponses rid rt c s))) k =
     (if k \<in> set (existingResponseIds (allMessages s))
      then count_list (existingResponseIds (allMessages s)) k
      else count_list (map r_id (case sc_toolResults c of None \<Rightarrow> [] | Some rs \<Rightarrow> rs)) (Some k))"
  using assms
  by (simp add: ids_appendFunctionResponses count_list_filter_notin count_resultIds
        count_list_0_iff)

lemma ids_notCarrier: "m_isFunctionResponse m \<noteq> Some True \<Longrightarrow> messageResponseIds m = []"
  by (simp add: messageResponseIds_def)

lemma flag_spreadMessage:
  "m_isFunctionResponse (spreadMessage old fin) =
     (case m_isFunctionResponse fin of None \<Rightarrow> m_isFunctionResponse old | Some v \<Rightarrow> Some v)"
  by (simp add: spreadMessage_def)

lemma flag_confirmationMessage:
  "m_isFunctionResponse (confirmationMessage col c ct m) =
     (case m_isFunctionResponse (contentToMessage col (Some ct) (m_id m)) of
        None \<Rightarrow> m_isFunctionResponse m | Some v \<Rightarrow> Some v)"
  by (simp add: confirmationMessage_def rebuildMerged_def Let_def flag_spreadMessage
        split: option.splits)

lemma flag_iterationMessage:
  "m_isFunctionResponse (iterationMessage col c m) =
     (case m_isFunctionResponse (contentToMessage col (sc_content c) (m_id m)) of
        None \<Rightarrow> m_isFunctionResponse m | Some v \<Rightarrow> Some v)"
  by (simp add: iterationMessage_def Let_def flag_spreadMessage split: option.splits)

text \<open>The two slot replacements, and what they keep, when neither the builder nor the
  streaming slot holds a function-response message.\<close>

lemma confirmationReplace_cases:
  "confirmationReplace col c s = s \<or>
   (\<exists>i ct. i < length (allMessages s) \<and>
      Some (m_id (allMessages s ! i)) = streamingMessageId s \<and>
      confirmationReplace col c s =
        s\<lparr>allMessages := (allMessages s)[i := confirmationMessage col c ct (allMessages s ! i)]\<rparr>)"
proof (cases "findIndex (\<lambda>m. Some (m_id m) = streamingMessageId s) (allMessages s)")
  case None
  then show ?thesis by (simp add: confirmationReplace_def)
next
  case (Some i)
  from findIndex_Some [OF Some] show ?thesis
    using Some
    by (cases "sc_content c")
       (auto simp: confirmationReplace_def Let_def replaceAt_list_update)
qed

lemma iterationReplace_cases:
  "iterationReplace col c s = s \<or>
   (\<exists>i. i < length (allMessages s) \<and>
      Some (m_id (allMessages s ! i)) = streamingMessageId s \<and>
      iterationReplace col c s =
        s\<lparr>allMessages := (allMessages s)[i := iterationMessage col c (allMessages s ! i)]\<rparr>)"
proof (cases "findIndex (\<lambda>m. Some (m_id m) = streamingMessageId s) (allMessages s)")
  case None
  then show ?thesis by (simp add: iterationReplace_def)
next
  case (Some i)
  from findIndex_Some [OF Some] show ?thesis
    using Some by (auto simp: iterationReplace_def Let_def replaceAt_list_update)
qed

lemma confirmationReplace_keeps:
  assumes builder: "\<forall>c i. m_isFunctionResponse (contentToMessage col c i) \<noteq> Some True"
      and strm: "\<forall>m \<in> set (allMessages s).
                   Some (m_id m) = streamingMessageId s \<longrightarrow> m_isFunctionResponse m \<noteq> Some True"
  shows "existingResponseIds (allMessages (confirmationReplace col c s)) =
           existingResponseIds (allMessages s) \<and>
         streamingMessageId (confirmationReplace col c s) = streamingMessageId s \<and>
         (\<forall>m \<in> set (allMessages (confirmationReplace col c s)).
            Some (m_id m) = streamingMessageId s \<longrightarrow> m_isFunctionResponse m \<noteq> Some True)"
proof -
  from confirmationReplace_cases [of col c s] show ?thesis
  proof
    assume "confirmationReplace col c s = s"
    with strm show ?thesis by simp
  next
    assume "\<exists>i ct. i < length (allMessages s) \<and>
      Some (m_id (allMessages s ! i)) = streamingMessageId s \<and>
      confirmationReplace col c s =
        s\<lparr>allMessages := (allMessages s)[i := confirmationMessage col c ct (allMessages s ! i)]\<rparr>"
    then obtain i ct where il: "i < length (allMessages s)"
      and sid: "Some (m_id (allMessages s ! i)) = streamingMessageId s"
      and eq: "confirmationReplace col c s =
        s\<lparr>allMessages := (allMessages s)[i := confirmationMessage col c ct (allMessages s ! i)]\<rparr>"
      by blast
    from il sid strm have old: "m_isFunctionResponse (allMessages s ! i) \<noteq> Some True"
      by auto
    have new: "m_isFunctionResponse (confirmationMessage col c ct (allMessages s ! i)) \<noteq> Some True"
      using old builder by (auto simp: flag_confirmationMessage split: option.splits)
    have ids: "existingResponseIds (allMessages (confirmationReplace col c s)) =
           existingResponseIds (allMessages s)"
      unfolding eq using il old new
      by (simp add: existingResponseIds_update ids_notCarrier)
    have "\<forall>m \<in> set (allMessages (confirmationReplace col c s)).
            Some (m_id m) = streamingMessageId s \<longrightarrow> m_isFunctionResponse m \<noteq> Some True"
    proof
      fix m assume "m \<in> set (allMessages (confirmationReplace col c s))"
      then have "m \<in> insert (confirmationMessage col c ct (allMessages s ! i)) (set (allMessages s))"
        unfolding eq using set_update_subset_insert by fastforce
      with new strm
      show "Some (m_id m) = streamingMessageId s \<longrightarrow> m_isFunctionResponse m \<noteq> Some True"
        by auto
    qed
    with ids eq show ?thesis by simp
  qed
qed

lemma iterationReplace_keeps:
  assumes builder: "\<forall>c i. m_isFunctionResponse (contentToMessage col c i) \<noteq> Some True"
      and strm: "\<forall>m \<in> set (allMessages s).
                   Some (m_id m) = streamingMessageId s \<longrightarrow> m_isFunctionResponse m \<noteq> Some True"
  shows "existingResponseIds (allMessages (iterationReplace col c s)) =
           existingResponseIds (allMessages s)"
proof -
  from iterationReplace_cases [of col c s] show ?thesis
  proof
    assume "iterationReplace col c s = s"
    then show ?thesis by simp
  next
    assume "\<exists>i. i < length (allMessages s) \<and>
      Some (m_id (allMessages s ! i)) = streamingMessageId s \<and>
      iterationReplace col c s =
        s\<lparr>allMessages := (allMessages s)[i := iterationMessage col c (allMessages s ! i)]\<rparr>"
    then obtain i where il: "i < length (allMessages s)"
      and sid: "Some (m_id (allMessages s ! i)) = streamingMessageId s"
      and eq: "iterationReplace col c s =
        s\<lparr>allMessages := (allMessages s)[i := iterationMessage col c (allMessages s ! i)]\<rparr>"
      by blast
    from il sid strm have old: "m_isFunctionResponse (allMessages s ! i) \<noteq> Some True"
      by auto
    have new: "m_isFunctionResponse (iterationMessage col c (allMessages s ! i)) \<noteq> Some True"
      using old builder by (auto simp: flag_iterationMessage split: option.splits)
    show ?thesis
      unfolding eq using il old new
      by (simp add: existingResponseIds_update ids_notCarrier)
  qed
qed

lemma messages_handleAwaitingConfirmation:
  "allMessages (handleAwaitingConfirmation col rid rt c s) =
     allMessages (appendFunctionResponses rid rt c (confirmationReplace col c s)) \<and>
   streamingMessageId (handleAwaitingConfirmation col rid rt c s) =
     streamingMessageId (confirmationReplace col c s)"
  by (simp add: handleAwaitingConfirmation_def Let_def addCheckpoints_eq appendFunctionResponses_eq)

lemma messages_handleToolIteration:
  "allMessages (handleToolIteration col rid rt aid at c s) =
     allMessages (appendFunctionResponses rid rt c (iterationReplace col c s)) @
       (if hasCancelledTools c then [] else [newAssistantMessage col aid at])"
  by (simp add: handleToolIteration_def Let_def addCheckpoints_eq appendFunctionResponses_eq)

lemma ids_newAssistantMessage: "messageResponseIds (newAssistantMessage col aid at) = []"
  by (simp add: messageResponseIds_def newAssistantMessage_def)

lemma replay_count:
  assumes k: "k \<noteq> []"
      and once: "count_list (map r_id (case sc_toolResults e1 of None \<Rightarrow> [] | Some rs \<Rightarrow> rs)) (Some k) = 1"
      and init: "count_list (existingResponseIds (allMessages s)) k \<le> 1"
      and builder: "\<forall>c i. m_isFunctionResponse (contentToMessage col c i) \<noteq> Some True"
      and strm: "\<forall>m \<in> set (allMessages s).
                   Some (m_id m) = streamingMessageId s \<longrightarrow> m_isFunctionResponse m \<noteq> Some True"
      and fresh: "Some rid1 \<noteq> streamingMessageId s"
  shows "count_list (existingResponseIds (allMessages
           (handleToolIteration col rid2 rt2 aid at e2
              (handleAwaitingConfirmation col rid1 rt1 e1 s)))) k = 1"
proof -
  let ?r1 = "confirmationReplace col e1 s"
  let ?a1 = "appendFunctionResponses rid1 rt1 e1 ?r1"
  let ?s1 = "handleAwaitingConfirmation col rid1 rt1 e1 s"
  let ?r2 = "iterationReplace col e2 ?s1"
  let ?a2 = "appendFunctionResponses rid2 rt2 e2 ?r2"
  note keep1 = confirmationReplace_keeps [OF builder strm, of e1]
  have c1: "count_list (existingResponseIds (allMessages ?a1)) k = 1"
  proof (cases "k \<in> set (existingResponseIds (allMessages s))")
    case True
    then have "count_list (existingResponseIds (allMessages s)) k \<noteq> 0"
      by (simp add: count_list_0_iff)
    with init have "count_list (existingResponseIds (allMessages s)) k = 1" by simp
    with True keep1 show ?thesis by (simp add: count_appendFunctionResponses [OF k])
  next
    case False
    with keep1 once show ?thesis by (simp add: count_appendFunctionResponses [OF k])
  qed
  have m1: "allMessages ?s1 = allMessages ?a1"
    and sid1: "streamingMessageId ?s1 = streamingMessageId s"
    using keep1 by (simp_all add: messages_handleAwaitingConfirmation)
  have strm1: "\<forall>m \<in> set (allMessages ?s1).
                 Some (m_id m) = streamingMessageId ?s1 \<longrightarrow> m_isFunctionResponse m \<noteq> Some True"
  proof
    fix m assume "m \<in> set (allMessages ?s1)"
    then have "m \<in> set (allMessages ?r1) \<or> (\<exists>ps. m = responseMessage rid1 rt1 ps)"
      unfolding m1 by (auto simp: appendFunctionResponses_eq Let_def split: option.splits if_splits)
    then show "Some (m_id m) = streamingMessageId ?s1 \<longrightarrow> m_isFunctionResponse m \<noteq> Some True"
    proof
      assume "m \<in> set (allMessages ?r1)"
      with keep1 sid1 show ?thesis by simp
    next
      assume "\<exists>ps. m = responseMessage rid1 rt1 ps"
      then have "m_id m = rid1" by (auto simp: responseMessage_def)
      with fresh sid1 show ?thesis by simp
    qed
  qed
  have "existingResponseIds (allMessages ?r2) = existingResponseIds (allMessages ?s1)"
    by (rule iterationReplace_keeps [OF builder strm1])
  with c1 m1 have c2: "count_list (existingResponseIds (allMessages ?r2)) k = 1" by simp
  then have "k \<in> set (existingResponseIds (allMessages ?r2))"
    by (metis count_list_0_iff zero_neq_one)
  with c2 have "count_list (existingResponseIds (allMessages ?a2)) k = 1"
    by (simp add: count_appendFunctionResponses [OF k])
  then show ?thesis
    by (simp add: messages_handleToolIteration existingResponseIds_append)
       (simp add: existingResponseIds_def ids_newAssistantMessage)
qed

text \<open>
  C3. \<open>handleAwaitingConfirmation\<close> and \<open>handleToolIteration\<close> append one hidden
  function-response message, built from the event's results that carry a non-empty id
  not yet among the ids of the \<open>functionResponse\<close> parts of the \<open>isFunctionResponse\<close>
  messages of the whole window (after the streaming slot is replaced), and nothing when
  no such result is left. So for an awaiting-confirmation event followed by a
  tool-iteration event, whatever results the second carries and so also when it carries
  the result id \<open>k\<close> of the first again, the history afterwards holds exactly one hidden
  function-response part with id \<open>k\<close>. Here \<open>k\<close> is a non-empty id that occurs once among
  the results of the first event and at most once in the history before; the builder
  returns no function-response message, the streaming message is none, and the id
  generated for the hidden message is not the streaming id.
\<close>

theorem functionResponse_dedup:
  "allMessages (handleAwaitingConfirmation col rid1 rt1 e1 s) =
     (let base = allMessages (confirmationReplace col e1 s);
          ps = map responsePart
                 (filter (\<lambda>r. case r_id r of
                                 None \<Rightarrow> False
                               | Some i \<Rightarrow> i \<noteq> [] \<and> i \<notin> set (existingResponseIds base))
                    (case sc_toolResults e1 of None \<Rightarrow> [] | Some rs \<Rightarrow> rs))
      in base @ (if ps = [] then [] else [responseMessage rid1 rt1 ps])) \<and>
   allMessages (handleToolIteration col rid2 rt2 aid at e2 s) =
     (let base = allMessages (iterationReplace col e2 s);
          ps = map responsePart
                 (filter (\<lambda>r. case r_id r of
                                 None \<Rightarrow> False
                               | Some i \<Rightarrow> i \<noteq> [] \<and> i \<notin> set (existingResponseIds base))
                    (case sc_toolResults e2 of None \<Rightarrow> [] | Some rs \<Rightarrow> rs))
      in base @ (if ps = [] then [] else [responseMessage rid2 rt2 ps]) @
           (if hasCancelledTools e2 then [] else [newAssistantMessage col aid at])) \<and>
   (k \<noteq> [] \<and>
    count_list (map r_id (case sc_toolResults e1 of None \<Rightarrow> [] | Some rs \<Rightarrow> rs)) (Some k) = 1 \<and>
    count_list (existingResponseIds (allMessages s)) k \<le> 1 \<and>
    (\<forall>c i. m_isFunctionResponse (contentToMessage col c i) \<noteq> Some True) \<and>
    (\<forall>m \<in> set (allMessages s).
       Some (m_id m) = streamingMessageId s \<longrightarrow> m_isFunctionResponse m \<noteq> Some True) \<and>
    Some rid1 \<noteq> streamingMessageId s \<longrightarrow>
    count_list (existingResponseIds (allMessages
       (handleToolIteration col rid2 rt2 aid at e2
          (handleAwaitingConfirmation col rid1 rt1 e1 s)))) k = 1)"
proof (intro conjI impI)
  show "allMessages (handleAwaitingConfirmation col rid1 rt1 e1 s) =
     (let base = allMessages (confirmationReplace col e1 s);
          ps = map responsePart
                 (filter (\<lambda>r. case r_id r of
                                 None \<Rightarrow> False
                               | Some i \<Rightarrow> i \<noteq> [] \<and> i \<notin> set (existingResponseIds base))
                    (case sc_toolResults e1 of None \<Rightarrow> [] | Some rs \<Rightarrow> rs))
      in base @ (if ps = [] then [] else [responseMessage rid1 rt1 ps]))"
    by (cases "sc_toolResults e1")
       (simp_all add: messages_handleAwaitingConfirmation appendFunctionResponses_eq Let_def
          newResponseParts_def)
next
  show "allMessages (handleToolIteration col rid2 rt2 aid at e2 s) =
     (let base = allMessages (iterationReplace col e2 s);
          ps = map responsePart
                 (filter (\<lambda>r. case r_id r of
                                 None \<Rightarrow> False
                               | Some i \<Rightarrow> i \<noteq> [] \<and> i \<notin> set (existingResponseIds base))
                    (case sc_toolResults e2 of None \<Rightarrow> [] | Some rs \<Rightarrow> rs))
      in base @ (if ps = [] then [] else [responseMessage rid2 rt2 ps]) @
           (if hasCancelledTools e2 then [] else [newAssistantMessage col aid at]))"
    by (cases "sc_toolResults e2")
       (simp_all add: messages_handleToolIteration appendFunctionResponses_eq Let_def
          newResponseParts_def)
next
  assume "k \<noteq> [] \<and>
    count_list (map r_id (case sc_toolResults e1 of None \<Rightarrow> [] | Some rs \<Rightarrow> rs)) (Some k) = 1 \<and>
    count_list (existingResponseIds (allMessages s)) k \<le> 1 \<and>
    (\<forall>c i. m_isFunctionResponse (contentToMessage col c i) \<noteq> Some True) \<and>
    (\<forall>m \<in> set (allMessages s).
       Some (m_id m) = streamingMessageId s \<longrightarrow> m_isFunctionResponse m \<noteq> Some True) \<and>
    Some rid1 \<noteq> streamingMessageId s"
  then show "count_list (existingResponseIds (allMessages
       (handleToolIteration col rid2 rt2 aid at e2
          (handleAwaitingConfirmation col rid1 rt1 e1 s)))) k = 1"
    by (intro replay_count) simp_all
qed

theorem functionResponse_dedup_witness:
  "''t1'' \<noteq> [] \<and>
   count_list (map r_id (case sc_toolResults exConfirmationEvent of None \<Rightarrow> [] | Some rs \<Rightarrow> rs))
     (Some ''t1'') = 1 \<and>
   Some ''t1'' \<in> set (map r_id (case sc_toolResults exReplayEvent of None \<Rightarrow> [] | Some rs \<Rightarrow> rs)) \<and>
   count_list (existingResponseIds (allMessages exRunningState)) ''t1'' \<le> 1 \<and>
   (\<forall>c i. m_isFunctionResponse (contentToMessage exCol c i) \<noteq> Some True) \<and>
   map m_isFunctionResponse (allMessages exRunningState) = [None, None] \<and>
   Some ''r1'' \<noteq> streamingMessageId exRunningState \<and>
   count_list (existingResponseIds (allMessages
       (handleToolIteration exCol ''r2'' 12 ''a2'' 13 exReplayEvent
          (handleAwaitingConfirmation exCol ''r1'' 10 exConfirmationEvent exRunningState)))) ''t1'' = 1 \<and>
   existingResponseIds (allMessages
       (handleToolIteration exCol ''r2'' 12 ''a2'' 13 exReplayEvent
          (handleAwaitingConfirmation exCol ''r1'' 10 exConfirmationEvent exRunningState))) =
     [''t1'', ''t2'']"
proof -
  have h: "''t1'' \<noteq> [] \<and>
   count_list (map r_id (case sc_toolResults exConfirmationEvent of None \<Rightarrow> [] | Some rs \<Rightarrow> rs))
     (Some ''t1'') = 1 \<and>
   count_list (existingResponseIds (allMessages exRunningState)) ''t1'' \<le> 1 \<and>
   (\<forall>c i. m_isFunctionResponse (contentToMessage exCol c i) \<noteq> Some True) \<and>
   (\<forall>m \<in> set (allMessages exRunningState).
       Some (m_id m) = streamingMessageId exRunningState \<longrightarrow> m_isFunctionResponse m \<noteq> Some True) \<and>
   Some ''r1'' \<noteq> streamingMessageId exRunningState"
    by (simp add: exConfirmationEvent_def exResult_def exRunningState_def ex_defs exCol_def
          existingResponseIds_def messageResponseIds_def)
  have e2: "Some ''t1'' \<in> set (map r_id (case sc_toolResults exReplayEvent of None \<Rightarrow> [] | Some rs \<Rightarrow> rs))"
    by (simp add: exReplayEvent_def exIterationEvent_def exResult_def ex_defs)
  from functionResponse_dedup [of exCol "''r1''" 10 exConfirmationEvent exRunningState
         "''r2''" 12 "''a2''" 13 exReplayEvent "''t1''"] h
  have "count_list (existingResponseIds (allMessages
       (handleToolIteration exCol ''r2'' 12 ''a2'' 13 exReplayEvent
          (handleAwaitingConfirmation exCol ''r1'' 10 exConfirmationEvent exRunningState)))) ''t1'' = 1"
    by blast
  moreover have "existingResponseIds (allMessages
       (handleToolIteration exCol ''r2'' 12 ''a2'' 13 exReplayEvent
          (handleAwaitingConfirmation exCol ''r1'' 10 exConfirmationEvent exRunningState))) =
     [''t1'', ''t2'']"
    by (simp add: exConfirmationEvent_def exReplayEvent_def exIterationEvent_def exResult_def
          exRunningState_def ex_defs exCol_def iteration_defs handleAwaitingConfirmation_def
          confirmationReplace_def confirmationMessage_def rebuildMerged_def mergeTools_def
          confirmationStatus_def toolResultMap_def partResponseIds_def responsePart_def
          responseMessage_def newAssistantMessage_def)
  moreover have "map m_isFunctionResponse (allMessages exRunningState) = [None, None]"
    by (simp add: exRunningState_def ex_defs)
  ultimately show ?thesis using h e2 by blast
qed

section \<open>Message objects: written in place or replaced\<close>

text \<open>
  A content-delta event on a store whose streaming message is the object at reference 0:
  after the event the slot still holds reference 0, no object was made, and the object
  at reference 0 has other \<open>parts\<close> and \<open>metadata\<close> than before. The delta array is empty,
  so no helper of the stream parser is called: the writes are the handler's own.
\<close>

theorem handleChunkType_in_place_counterexample:
  "os_heap exObjStore ! 0 = exMessage ''a1'' Assistant [] None \<and>
   allMessages (os_state (handleChunkType_obj exCol exDeltaEvent exObjStore)) =
     allMessages (os_state exObjStore) \<and>
   length (os_heap (handleChunkType_obj exCol exDeltaEvent exObjStore)) =
     length (os_heap exObjStore) \<and>
   os_heap (handleChunkType_obj exCol exDeltaEvent exObjStore) ! 0 \<noteq> os_heap exObjStore ! 0 \<and>
   m_parts (os_heap exObjStore ! 0) = None \<and>
   m_parts (os_heap (handleChunkType_obj exCol exDeltaEvent exObjStore) ! 0) = Some [] \<and>
   m_metadata (os_heap exObjStore ! 0) = None \<and>
   m_metadata (os_heap (handleChunkType_obj exCol exDeltaEvent exObjStore) ! 0) =
     Some (emptyMetadata\<lparr> md_usageMetadata :=
             Some \<lparr> u_thoughtsTokenCount = Some 3, u_candidatesTokenCount = Some 7,
                    u_totalTokenCount = Some 10 \<rparr>,
             md_thoughtsTokenCount := Some 3, md_candidatesTokenCount := Some 7 \<rparr>)"
  by (simp add: exObjStore_def exDeltaEvent_def ex_defs handleChunkType_obj_def deref_def
        writeObject_def chunkMutation_def Let_def)

lemma grows_refl: "grows os os"
  by (simp add: grows_def)

lemma grows_trans:
  assumes "grows a b" and "grows b c"
  shows "grows a c"
proof -
  from assms obtain e1 e2 where h: "os_heap b = os_heap a @ e1" "os_heap c = os_heap b @ e2"
    by (auto simp: grows_def)
  have "\<forall>x \<in> set (allMessages (os_state c)).
         x \<in> set (allMessages (os_state a)) \<or>
         (length (os_heap a) \<le> x \<and> x < length (os_heap c))"
  proof
    fix x assume "x \<in> set (allMessages (os_state c))"
    with assms(2) have "x \<in> set (allMessages (os_state b)) \<or>
         (length (os_heap b) \<le> x \<and> x < length (os_heap c))"
      by (simp add: grows_def)
    then show "x \<in> set (allMessages (os_state a)) \<or>
         (length (os_heap a) \<le> x \<and> x < length (os_heap c))"
    proof
      assume "x \<in> set (allMessages (os_state b))"
      with assms(1) have "x \<in> set (allMessages (os_state a)) \<or>
         (length (os_heap a) \<le> x \<and> x < length (os_heap b))"
        by (simp add: grows_def)
      with h show ?thesis by auto
    next
      assume "length (os_heap b) \<le> x \<and> x < length (os_heap c)"
      with h show ?thesis by auto
    qed
  qed
  with h show ?thesis by (simp add: grows_def)
qed

lemma wf_grows: "wf_store os \<Longrightarrow> grows os os' \<Longrightarrow> wf_store os'"
  by (fastforce simp: wf_store_def grows_def)

lemma wf_handleChunkType: "wf_store os \<Longrightarrow> wf_store (handleChunkType_obj col c os)"
  by (simp add: handleChunkType_obj_def writeObject_def wf_store_def split: option.splits)

lemma grows_onState:
  "set (allMessages (f (os_state os))) \<subseteq> set (allMessages (os_state os)) \<Longrightarrow>
     grows os (onState f os)"
  by (auto simp: grows_def onState_def)

lemma set_replaceAt: "set (replaceAt i x xs) \<subseteq> insert x (set xs)"
  by (auto simp: replaceAt_def dest: in_set_takeD in_set_dropD)

lemma set_removeAt: "set (removeAt i xs) \<subseteq> set xs"
  by (auto simp: removeAt_take_drop dest: in_set_takeD in_set_dropD)

lemma allMessages_addCheckpoints: "allMessages (addCheckpoints c s) = allMessages s"
  by (simp add: addCheckpoints_eq)

lemma grows_replaceSlot: "grows os (replaceSlot i m os)"
  using set_replaceAt [of i "length (os_heap os)" "allMessages (os_state os)"]
  by (auto simp: grows_def replaceSlot_def newObject_def onState_def)

lemma grows_pushMessage: "grows os (pushMessage m os)"
  by (auto simp: grows_def pushMessage_def newObject_def onState_def)

lemma grows_appendFunctionResponses: "grows os (appendFunctionResponses_obj rid rt c os)"
  by (simp add: appendFunctionResponses_obj_def Let_def grows_refl grows_pushMessage
        split: option.splits)

lemma grows_addCheckpoints: "grows os (onState (addCheckpoints c) os)"
  by (rule grows_onState) (simp add: allMessages_addCheckpoints)

lemma grows_flags:
  "grows os (onState (\<lambda>s. s\<lparr>isStreaming := b\<rparr>) os)"
  "grows os (onState (\<lambda>s. s\<lparr>streamingMessageId := x\<rparr>) os)"
  "grows os (onState (\<lambda>s. s\<lparr>error := e\<rparr>) os)"
  "grows os (onState (\<lambda>s. s\<lparr>isStreaming := b, isWaitingForResponse := w\<rparr>) os)"
  "grows os (onState (\<lambda>s. s\<lparr> streamingMessageId := x, isStreaming := b,
                               isWaitingForResponse := w \<rparr>) os)"
  by (simp_all add: grows_onState)

lemma grows_handleToolStatus: "grows os (handleToolStatus_obj c os)"
  by (simp add: handleToolStatus_obj_def Let_def grows_refl grows_replaceSlot
        split: option.splits)

lemma grows_cancelledReplace: "grows os (cancelledReplace_obj c os)"
  by (simp add: cancelledReplace_obj_def Let_def grows_refl grows_replaceSlot grows_onState
        set_removeAt split: option.splits)

lemma grows_handleCancelled: "grows os (handleCancelled_obj c os)"
  unfolding handleCancelled_obj_def Let_def
  by (rule grows_trans [OF grows_cancelledReplace grows_flags(5)])

lemma grows_handleError: "grows os (handleError_obj c os)"
  unfolding handleError_obj_def Let_def
  by (auto simp: grows_def onState_def split: option.splits)

lemma grows_iterationReplace: "grows os (iterationReplace_obj col c os)"
  by (simp add: iterationReplace_obj_def Let_def grows_refl grows_replaceSlot
        split: option.splits)

lemma grows_handleToolIteration: "grows os (handleToolIteration_obj col rid rt aid at c os)"
proof -
  let ?os3 = "onState (addCheckpoints c)
                (appendFunctionResponses_obj rid rt c (iterationReplace_obj col c os))"
  have 3: "grows os ?os3"
    by (rule grows_trans [OF grows_trans [OF grows_iterationReplace
          grows_appendFunctionResponses] grows_addCheckpoints])
  show ?thesis
  proof (cases "hasCancelledTools c")
    case True
    have "grows os (onState (\<lambda>s. s\<lparr> streamingMessageId := None, isStreaming := False,
                               isWaitingForResponse := False \<rparr>) ?os3)"
      by (rule grows_trans [OF 3 grows_flags(5)])
    with True show ?thesis
      by (simp add: handleToolIteration_obj_def Let_def)
  next
    case False
    have "grows os (onState (\<lambda>s. s\<lparr> streamingMessageId := Some aid, isStreaming := True,
                               isWaitingForResponse := True \<rparr>)
                (pushMessage (newAssistantMessage col aid at) ?os3))"
      by (rule grows_trans [OF grows_trans [OF 3 grows_pushMessage] grows_flags(5)])
    with False show ?thesis
      by (simp add: handleToolIteration_obj_def Let_def)
  qed
qed

lemma restoreShared_own_metadata:
  assumes "\<forall>c i. m_metadata (contentToMessage col c i) \<noteq> None"
  shows "restoreShared col ct r os = os"
proof -
  from assms have "m_metadata (contentToMessage col (Some ct) (m_id (deref os r))) \<noteq> None"
    by blast
  then show ?thesis by (auto simp: restoreShared_def Let_def split: option.splits)
qed

lemma grows_executingReplace:
  assumes "\<forall>c i. m_metadata (contentToMessage col c i) \<noteq> None"
  shows "grows os (executingReplace_obj col c os)"
  by (simp add: executingReplace_obj_def Let_def restoreShared_own_metadata [OF assms]
        grows_refl grows_replaceSlot split: option.splits)

lemma grows_handleToolsExecuting:
  assumes "\<forall>c i. m_metadata (contentToMessage col c i) \<noteq> None"
  shows "grows os (handleToolsExecuting_obj col c os)"
  unfolding handleToolsExecuting_obj_def Let_def
  by (rule grows_trans [OF grows_flags(1) grows_executingReplace [OF assms]])

lemma grows_confirmationReplace:
  assumes "\<forall>c i. m_metadata (contentToMessage col c i) \<noteq> None"
  shows "grows os (confirmationReplace_obj col c os)"
  by (simp add: confirmationReplace_obj_def Let_def restoreShared_own_metadata [OF assms]
        grows_refl grows_replaceSlot split: option.splits)

lemma grows_handleAwaitingConfirmation:
  assumes "\<forall>c i. m_metadata (contentToMessage col c i) \<noteq> None"
  shows "grows os (handleAwaitingConfirmation_obj col rid rt c os)"
  unfolding handleAwaitingConfirmation_obj_def Let_def
  by (rule grows_trans [OF grows_trans [OF grows_trans [OF grows_confirmationReplace [OF assms]
        grows_appendFunctionResponses] grows_addCheckpoints] grows_flags(1)])

lemma writeObject_same: "writeObject r (deref os r) os = os"
  by (simp add: writeObject_def deref_def)

lemma grows_completeReplace:
  assumes "\<forall>m. flushToolCallBuffer col m = m"
  shows "grows os (completeReplace_obj col c os)"
  using assms
  by (simp add: completeReplace_obj_def Let_def writeObject_same grows_refl grows_replaceSlot
        split: option.splits)

lemma grows_handleComplete:
  assumes "\<forall>m. flushToolCallBuffer col m = m"
  shows "grows os (handleComplete_obj col c os)"
  unfolding handleComplete_obj_def Let_def
  by (rule grows_trans [OF grows_trans [OF grows_completeReplace [OF assms]
        grows_addCheckpoints] grows_flags(5)])

lemma grows_dispatch:
  assumes "kind \<noteq> K_chunk"
      and "kind = K_complete \<longrightarrow> (\<forall>m. flushToolCallBuffer col m = m)"
      and "kind = K_toolsExecuting \<or> kind = K_awaitingConfirmation \<longrightarrow>
             (\<forall>c i. m_metadata (contentToMessage col c i) \<noteq> None)"
  shows "grows os (dispatch_obj col fv kind chunk os)"
proof (cases kind)
  case K_checkpoints
  then show ?thesis
    by (simp add: dispatch_obj_def handleCheckpoints_def [abs_def] grows_addCheckpoints)
qed (use assms in \<open>simp_all add: dispatch_obj_def grows_handleToolsExecuting
      grows_handleToolStatus grows_handleAwaitingConfirmation grows_handleToolIteration
      grows_handleCancelled grows_handleError grows_handleComplete\<close>)

text \<open>
  C8, as the code has it. For every stream event of a kind other than \<open>chunk\<close>, the
  handler updates a message only by making a new message object and putting its reference
  into the slot of \<open>allMessages\<close>: every object that existed before the event has the same
  value after it, and every slot afterwards holds a reference that was in \<open>allMessages\<close>
  before or the reference of a new object. For \<open>tools-executing\<close> and
  \<open>awaiting-confirmation\<close> this is for a builder whose message has a metadata object of
  its own, and for \<open>complete\<close> it is for a tool-call buffer with nothing to flush
  (\<open>flushToolCallBuffer\<close> works on the existing object before the slot is replaced). The
  \<open>chunk\<close> handler writes into the streaming message object in place.
\<close>

theorem copy_on_write:
  assumes "kind \<noteq> K_chunk"
      and "kind = K_complete \<longrightarrow> (\<forall>m. flushToolCallBuffer col m = m)"
      and "kind = K_toolsExecuting \<or> kind = K_awaitingConfirmation \<longrightarrow>
             (\<forall>c i. m_metadata (contentToMessage col c i) \<noteq> None)"
  shows "(\<forall>r < length (os_heap os).
            os_heap (dispatch_obj col fv kind chunk os) ! r = os_heap os ! r) \<and>
         (\<forall>x \<in> set (allMessages (os_state (dispatch_obj col fv kind chunk os))).
            x \<in> set (allMessages (os_state os)) \<or>
            (length (os_heap os) \<le> x \<and>
             x < length (os_heap (dispatch_obj col fv kind chunk os))))"
  using grows_dispatch [OF assms, where os = os and fv = fv and chunk = chunk]
  by (auto simp: grows_def nth_append)

text \<open>The object store shows the value model: for the handlers that replace slots, the
  messages seen through \<open>allMessages\<close> after the event are those of the handler on values.\<close>

lemma deref_fun: "deref os = (!) (os_heap os)"
  by (rule ext) (simp add: deref_def)

lemma view_simps [simp]:
  "allMessages (view os) = messagesOf os"
  "streamingMessageId (view os) = streamingMessageId (os_state os)"
  by (simp_all add: view_def)

lemma view_flags:
  "view (onState (\<lambda>s. s\<lparr>isStreaming := b\<rparr>) os) = (view os)\<lparr>isStreaming := b\<rparr>"
  "view (onState (\<lambda>s. s\<lparr> streamingMessageId := x, isStreaming := b,
                           isWaitingForResponse := w \<rparr>) os) =
     (view os)\<lparr> streamingMessageId := x, isStreaming := b, isWaitingForResponse := w \<rparr>"
  by (simp_all add: view_def onState_def messagesOf_def deref_fun)

lemma view_onState_messages:
  "view (onState (\<lambda>s. s\<lparr>allMessages := g (allMessages s)\<rparr>) os) =
     (view os)\<lparr>allMessages := map (deref os) (g (allMessages (os_state os)))\<rparr>"
  by (simp add: view_def onState_def messagesOf_def deref_fun)

lemma view_addCheckpoints:
  "view (onState (addCheckpoints c) os) = addCheckpoints c (view os)"
  by (simp add: addCheckpoints_eq view_def onState_def messagesOf_def deref_fun)

lemma view_replaceSlot:
  assumes "wf_store os" and "i < length (allMessages (os_state os))"
  shows "view (replaceSlot i m os) = (view os)\<lparr>allMessages := replaceAt i m (messagesOf os)\<rparr>"
proof -
  have old: "\<And>x. x \<in> set (allMessages (os_state os)) \<Longrightarrow> (os_heap os @ [m]) ! x = os_heap os ! x"
    using assms(1) by (simp add: wf_store_def nth_append)
  have "map ((!) (os_heap os @ [m])) (take i (allMessages (os_state os))) =
        map ((!) (os_heap os)) (take i (allMessages (os_state os)))"
    by (rule map_cong [OF refl]) (auto dest: in_set_takeD intro: old)
  moreover have "map ((!) (os_heap os @ [m])) (drop (Suc i) (allMessages (os_state os))) =
        map ((!) (os_heap os)) (drop (Suc i) (allMessages (os_state os)))"
    by (rule map_cong [OF refl]) (auto dest: in_set_dropD intro: old)
  ultimately show ?thesis
    by (simp add: view_def replaceSlot_def newObject_def onState_def messagesOf_def deref_fun
          replaceAt_def take_map drop_map)
qed

lemma view_pushMessage:
  assumes "wf_store os"
  shows "view (pushMessage m os) = (view os)\<lparr>allMessages := messagesOf os @ [m]\<rparr>"
proof -
  have "map ((!) (os_heap os @ [m])) (allMessages (os_state os)) =
        map ((!) (os_heap os)) (allMessages (os_state os))"
    using assms by (intro map_cong [OF refl]) (simp add: wf_store_def nth_append)
  then show ?thesis
    by (simp add: view_def pushMessage_def newObject_def onState_def messagesOf_def deref_fun)
qed

lemma wf_replaceSlot: "wf_store os \<Longrightarrow> wf_store (replaceSlot i m os)"
  using set_replaceAt [of i "length (os_heap os)" "allMessages (os_state os)"]
  by (fastforce simp: wf_store_def replaceSlot_def newObject_def onState_def)

lemma wf_pushMessage: "wf_store os \<Longrightarrow> wf_store (pushMessage m os)"
  by (fastforce simp: wf_store_def pushMessage_def newObject_def onState_def)

lemma wf_onState:
  "wf_store os \<Longrightarrow> set (allMessages (f (os_state os))) \<subseteq> set (allMessages (os_state os)) \<Longrightarrow>
     wf_store (onState f os)"
  by (auto simp: wf_store_def onState_def)

lemma wf_addCheckpoints: "wf_store os \<Longrightarrow> wf_store (onState (addCheckpoints c) os)"
  by (rule wf_onState) (simp_all add: allMessages_addCheckpoints)

lemma findIndex_messagesOf:
  "findIndex P (messagesOf os) = Some i \<Longrightarrow> i < length (allMessages (os_state os))"
  by (auto dest: findIndex_Some simp: messagesOf_def)

lemma nth_messagesOf:
  "i < length (allMessages (os_state os)) \<Longrightarrow>
     messagesOf os ! i = deref os (allMessages (os_state os) ! i)"
  by (simp add: messagesOf_def)

lemma view_appendFunctionResponses:
  assumes "wf_store os"
  shows "view (appendFunctionResponses_obj rid rt c os) = appendFunctionResponses rid rt c (view os)"
  using assms
  by (simp add: appendFunctionResponses_obj_def appendFunctionResponses_def Let_def
        view_pushMessage split: option.splits)

lemma wf_appendFunctionResponses:
  "wf_store os \<Longrightarrow> wf_store (appendFunctionResponses_obj rid rt c os)"
  by (simp add: appendFunctionResponses_obj_def Let_def wf_pushMessage split: option.splits)

lemma view_handleToolStatus:
  assumes "wf_store os"
  shows "view (handleToolStatus_obj c os) = handleToolStatus c (view os)"
proof (cases "sc_toolStatus c = Some True \<and> sc_tool c \<noteq> None")
  case False
  then show ?thesis by (auto simp: handleToolStatus_obj_def handleToolStatus_def)
next
  case True
  then obtain tu where tu: "sc_tool c = Some tu" by auto
  show ?thesis
  proof (cases "toolStatusTarget (tu_id tu) (streamingMessageId (os_state os)) (messagesOf os)")
    case None
    with True tu show ?thesis by (simp add: handleToolStatus_obj_def handleToolStatus_def)
  next
    case (Some i)
    from toolStatusTarget_Some [OF Some] have "i < length (allMessages (os_state os))"
      by (simp add: messagesOf_def)
    with True tu Some assms show ?thesis
      by (simp add: handleToolStatus_obj_def handleToolStatus_def Let_def view_replaceSlot)
  qed
qed

lemma view_cancelledReplace:
  assumes "wf_store os"
  shows "view (cancelledReplace_obj c os) = cancelledReplace c (view os)"
proof (cases "cancelledTarget (streamingMessageId (os_state os)) (messagesOf os)")
  case None
  then show ?thesis by (simp add: cancelledReplace_obj_def cancelledReplace_def)
next
  case (Some i)
  from cancelledTarget_Some [OF Some] have il: "i < length (allMessages (os_state os))"
    by (simp add: messagesOf_def)
  have rm: "map (deref os) (removeAt i (allMessages (os_state os))) = removeAt i (messagesOf os)"
    by (simp add: removeAt_take_drop messagesOf_def take_map drop_map)
  from Some il assms rm show ?thesis
    by (simp add: cancelledReplace_obj_def cancelledReplace_def Let_def view_replaceSlot
          view_onState_messages)
qed

lemma view_handleCancelled:
  "wf_store os \<Longrightarrow> view (handleCancelled_obj c os) = handleCancelled c (view os)"
  by (simp add: handleCancelled_obj_def handleCancelled_def Let_def view_flags
        view_cancelledReplace)

lemma view_handleError:
  "view (handleError_obj c os) = handleError c (view os)"
proof -
  have f: "map ((!) (os_heap os)) (filter (\<lambda>r. Some (m_id (os_heap os ! r)) \<noteq> sid) refs) =
           filter (\<lambda>m. Some (m_id m) \<noteq> sid) (map ((!) (os_heap os)) refs)" for sid refs
    by (simp add: filter_map comp_def)
  show ?thesis
    by (simp add: handleError_obj_def handleError_def Let_def view_def onState_def
          messagesOf_def deref_fun f split: option.splits)
qed

lemma view_iterationReplace:
  assumes "wf_store os"
  shows "view (iterationReplace_obj col c os) = iterationReplace col c (view os) \<and>
         wf_store (iterationReplace_obj col c os)"
proof (cases "findIndex (\<lambda>m. Some (m_id m) = streamingMessageId (os_state os)) (messagesOf os)")
  case None
  with assms show ?thesis by (simp add: iterationReplace_obj_def iterationReplace_def)
next
  case (Some i)
  from findIndex_messagesOf [OF Some] assms Some show ?thesis
    by (simp add: iterationReplace_obj_def iterationReplace_def Let_def view_replaceSlot
          wf_replaceSlot)
qed

lemma view_handleToolIteration:
  assumes "wf_store os"
  shows "view (handleToolIteration_obj col rid rt aid at c os) =
           handleToolIteration col rid rt aid at c (view os)"
proof -
  let ?os1 = "iterationReplace_obj col c os"
  let ?os2 = "appendFunctionResponses_obj rid rt c ?os1"
  let ?os3 = "onState (addCheckpoints c) ?os2"
  from view_iterationReplace [OF assms, of col c]
  have v1: "view ?os1 = iterationReplace col c (view os)" and w1: "wf_store ?os1" by simp_all
  have v3: "view ?os3 =
      addCheckpoints c (appendFunctionResponses rid rt c (iterationReplace col c (view os)))"
    using view_appendFunctionResponses [OF w1] v1 by (simp add: view_addCheckpoints)
  have w3: "wf_store ?os3"
    using w1 by (intro wf_addCheckpoints wf_appendFunctionResponses)
  have "view (pushMessage (newAssistantMessage col aid at) ?os3) =
          (view ?os3)\<lparr>allMessages := allMessages (view ?os3) @ [newAssistantMessage col aid at]\<rparr>"
    using view_pushMessage [OF w3] by simp
  then show ?thesis
    by (simp add: handleToolIteration_obj_def handleToolIteration_def Let_def view_flags v3)
qed

lemma view_rebuild:
  assumes "wf_store os" and "\<forall>c i. m_metadata (contentToMessage col c i) \<noteq> None"
  shows "view (executingReplace_obj col c os) = executingReplace col c (view os)"
    and "view (confirmationReplace_obj col c os) = confirmationReplace col c (view os)"
    and "wf_store (confirmationReplace_obj col c os)"
proof -
  show "view (executingReplace_obj col c os) = executingReplace col c (view os)"
  proof (cases "findIndex (\<lambda>m. Some (m_id m) = streamingMessageId (os_state os)) (messagesOf os)")
    case None
    then show ?thesis by (simp add: executingReplace_obj_def executingReplace_def)
  next
    case (Some i)
    from findIndex_messagesOf [OF Some] assms Some show ?thesis
      by (simp add: executingReplace_obj_def executingReplace_def Let_def view_replaceSlot
            restoreShared_own_metadata nth_messagesOf split: option.splits)
  qed
  show "view (confirmationReplace_obj col c os) = confirmationReplace col c (view os)"
  proof (cases "findIndex (\<lambda>m. Some (m_id m) = streamingMessageId (os_state os)) (messagesOf os)")
    case None
    then show ?thesis by (simp add: confirmationReplace_obj_def confirmationReplace_def)
  next
    case (Some i)
    from findIndex_messagesOf [OF Some] assms Some show ?thesis
      by (simp add: confirmationReplace_obj_def confirmationReplace_def Let_def view_replaceSlot
            restoreShared_own_metadata nth_messagesOf split: option.splits)
  qed
  show "wf_store (confirmationReplace_obj col c os)"
    using assms
    by (simp add: confirmationReplace_obj_def Let_def restoreShared_own_metadata wf_replaceSlot
          split: option.splits)
qed

lemma view_handleToolsExecuting:
  assumes "wf_store os" and "\<forall>c i. m_metadata (contentToMessage col c i) \<noteq> None"
  shows "view (handleToolsExecuting_obj col c os) = handleToolsExecuting col c (view os)"
proof -
  have "wf_store (onState (\<lambda>s. s\<lparr>isStreaming := True\<rparr>) os)"
    using assms(1) by (simp add: wf_store_def onState_def)
  from view_rebuild(1) [OF this assms(2)] show ?thesis
    by (simp add: handleToolsExecuting_obj_def handleToolsExecuting_def Let_def view_flags)
qed

lemma view_handleAwaitingConfirmation:
  assumes "wf_store os" and "\<forall>c i. m_metadata (contentToMessage col c i) \<noteq> None"
  shows "view (handleAwaitingConfirmation_obj col rid rt c os) =
           handleAwaitingConfirmation col rid rt c (view os)"
  using view_rebuild(2,3) [OF assms, of c]
  by (simp add: handleAwaitingConfirmation_obj_def handleAwaitingConfirmation_def Let_def
        view_flags view_addCheckpoints view_appendFunctionResponses)

lemma view_completeReplace:
  assumes "wf_store os" and "\<forall>m. flushToolCallBuffer col m = m"
  shows "view (completeReplace_obj col c os) = completeReplace col c (view os)"
proof (cases "findIndex (\<lambda>m. Some (m_id m) = streamingMessageId (os_state os)) (messagesOf os)")
  case None
  then show ?thesis by (simp add: completeReplace_obj_def completeReplace_def)
next
  case (Some i)
  from findIndex_messagesOf [OF Some] have il: "i < length (allMessages (os_state os))" .
  with Some assms show ?thesis
    by (simp add: completeReplace_obj_def completeReplace_def Let_def writeObject_same
          view_replaceSlot nth_messagesOf)
qed

lemma view_handleComplete:
  assumes "wf_store os" and "\<forall>m. flushToolCallBuffer col m = m"
  shows "view (handleComplete_obj col c os) = handleComplete col c (view os)"
  by (simp add: handleComplete_obj_def handleComplete_def Let_def view_flags
        view_addCheckpoints view_completeReplace [OF assms])

lemma view_dispatch:
  assumes "wf_store os" and "kind \<noteq> K_chunk"
      and "kind = K_complete \<longrightarrow> (\<forall>m. flushToolCallBuffer col m = m)"
      and "kind = K_toolsExecuting \<or> kind = K_awaitingConfirmation \<longrightarrow>
             (\<forall>c i. m_metadata (contentToMessage col c i) \<noteq> None)"
  shows "view (dispatch_obj col fv kind chunk os) = dispatch col fv kind chunk (view os)"
  using assms
  by (cases kind)
     (simp_all add: dispatch_obj_def dispatch_def view_handleToolsExecuting
        view_handleToolStatus view_handleAwaitingConfirmation view_handleToolIteration
        view_handleCancelled view_handleError view_handleComplete
        handleCheckpoints_def [abs_def] view_addCheckpoints)

theorem copy_on_write_witness:
  "K_toolStatus \<noteq> K_chunk \<and> K_toolsExecuting \<noteq> K_chunk \<and> K_complete \<noteq> K_chunk \<and>
   (\<forall>c i. m_metadata (contentToMessage exCol c i) \<noteq> None) \<and>
   (\<forall>m. flushToolCallBuffer exCol m = m) \<and>
   1 < length (os_heap exObjRunning) \<and>
   os_heap (dispatch_obj exCol exFresh K_toolStatus exDoneEvent exObjRunning) ! 1 =
     os_heap exObjRunning ! 1 \<and>
   allMessages (os_state (dispatch_obj exCol exFresh K_toolStatus exDoneEvent exObjRunning)) = [0, 2] \<and>
   m_tools (os_heap (dispatch_obj exCol exFresh K_toolStatus exDoneEvent exObjRunning) ! 2) =
     Some [exTool ''t1'' Success, exTool ''t2'' Success] \<and>
   os_heap (dispatch_obj exCol exFresh K_toolsExecuting exExecutingEvent exObjRunning) ! 1 =
     os_heap exObjRunning ! 1 \<and>
   allMessages (os_state (dispatch_obj exCol exFresh K_toolsExecuting exExecutingEvent exObjRunning)) =
     [0, 2] \<and>
   os_heap (dispatch_obj exCol exFresh K_complete exExecutingEvent exObjRunning) ! 1 =
     os_heap exObjRunning ! 1"
proof -
  have k: "K_toolStatus \<noteq> K_chunk" "K_toolsExecuting \<noteq> K_chunk" "K_complete \<noteq> K_chunk"
    by simp_all
  have b: "\<forall>c i. m_metadata (contentToMessage exCol c i) \<noteq> None"
    by (simp add: exCol_def)
  have w: "\<forall>m. flushToolCallBuffer exCol m = m"
    by (simp add: exCol_def)
  have l: "1 < length (os_heap exObjRunning)" by (simp add: exObjRunning_def)
  have 1: "os_heap (dispatch_obj exCol exFresh K_toolStatus exDoneEvent exObjRunning) ! 1 =
     os_heap exObjRunning ! 1"
    using copy_on_write [where kind = K_toolStatus and os = exObjRunning and col = exCol
        and fv = exFresh and chunk = exDoneEvent] k l by simp
  have 2: "os_heap (dispatch_obj exCol exFresh K_toolsExecuting exExecutingEvent exObjRunning) ! 1 =
     os_heap exObjRunning ! 1"
    using copy_on_write [where kind = K_toolsExecuting and os = exObjRunning and col = exCol
        and fv = exFresh and chunk = exExecutingEvent] k b l by simp
  have 5: "os_heap (dispatch_obj exCol exFresh K_complete exExecutingEvent exObjRunning) ! 1 =
     os_heap exObjRunning ! 1"
    using copy_on_write [where kind = K_complete and os = exObjRunning and col = exCol
        and fv = exFresh and chunk = exExecutingEvent] k w l by simp
  have 3: "allMessages (os_state (dispatch_obj exCol exFresh K_toolStatus exDoneEvent exObjRunning)) = [0, 2] \<and>
   m_tools (os_heap (dispatch_obj exCol exFresh K_toolStatus exDoneEvent exObjRunning) ! 2) =
     Some [exTool ''t1'' Success, exTool ''t2'' Success]"
    by (simp add: dispatch_obj_def handleToolStatus_obj_def exDoneEvent_def exObjRunning_def
          ex_defs messagesOf_def deref_fun toolStatusTarget_def truthy_def ownsTool_def
          toolStatusMessage_def toolStatusEntry_def replaceSlot_def newObject_def onState_def
          replaceAt_def Let_def)
  have 4: "allMessages (os_state (dispatch_obj exCol exFresh K_toolsExecuting exExecutingEvent exObjRunning)) =
     [0, 2]"
    by (simp add: dispatch_obj_def handleToolsExecuting_obj_def executingReplace_obj_def
          exExecutingEvent_def exObjRunning_def ex_defs exCol_def messagesOf_def deref_fun
          restoreShared_def replaceSlot_def newObject_def onState_def replaceAt_def Let_def)
  from k b w l 1 2 3 4 5 show ?thesis by blast
qed

end
